theory Spec2Isabelle
  imports Complex_Main
begin

section \<open>Forecasting: model selection and evaluation\<close>

text \<open>
  A shallow embedding of the two code cells of
  \<^verbatim>\<open>steps/01_forecasting_api/forecasting-model-selection-and-evaluation.ipynb\<close>:
  the function \<^verbatim>\<open>evaluate\<close> and the method \<^verbatim>\<open>ForecastingGridSearchCV.fit\<close>.

  The forecaster, the splitter \<^verbatim>\<open>cv\<close>, the scoring function and \<^verbatim>\<open>clone\<close> are
  collaborators that the notebook receives from its caller. They are parameters of the
  model. Python objects are mutable and shared by reference, so forecaster objects live in
  a store and are named by their address.
\<close>

subsection \<open>Data\<close>

text \<open>
  Exceptions. \<open>IndexError\<close> is raised by positional indexing out of range,
  \<open>AttributeError\<close> by \<^verbatim>\<open>cv.get_n_splits\<close> when \<^verbatim>\<open>cv\<close> is left at its default
  \<^verbatim>\<open>None\<close>, \<open>TypeError\<close> by calling \<^verbatim>\<open>scoring\<close> when it is left at its default
  \<^verbatim>\<open>None\<close>; \<open>Raised\<close> is any exception raised inside a collaborator.
\<close>

datatype error = IndexError | AttributeError | TypeError | Raised string

text \<open>
  A series is the list of its observations (floats are modelled as reals). The forecasting
  horizon is a list of steps ahead, or Python's \<^verbatim>\<open>None\<close>. A window is the pair
  \<^verbatim>\<open>(train, test)\<close> of integer position arrays that \<^verbatim>\<open>cv.split\<close> yields.
\<close>

type_synonym series = "real list"
type_synonym horizon = "nat list option"
type_synonym window = "nat list \<times> nat list"
type_synonym scoring_fn = "series \<Rightarrow> series \<Rightarrow> error + real"

text \<open>
  A cell of a float array: \<open>None\<close> is a cell without a determined number (memory that
  \<^verbatim>\<open>np.empty\<close> allocated and nothing wrote, or \<^verbatim>\<open>nan\<close>).
\<close>

type_synonym cell = "real option"

text \<open>\<^verbatim>\<open>y.iloc[idx]\<close>: selection by position; a position outside the series raises.\<close>

definition iloc :: "series \<Rightarrow> nat list \<Rightarrow> error + series" where
  "iloc y idx =
     (if list_all (\<lambda>i. i < length y) idx then Inr (map (\<lambda>i. y ! i) idx)
      else Inl IndexError)"

text \<open>
  \<^verbatim>\<open>np.empty(n)\<close> allocates \<open>n\<close> cells and writes none; \<^verbatim>\<open>np.mean\<close> of an empty array
  is \<^verbatim>\<open>nan\<close>, and the mean of an array with an unwritten cell is no determined number.
\<close>

definition np_empty :: "nat \<Rightarrow> cell list" where
  "np_empty n = replicate n None"

definition np_mean :: "cell list \<Rightarrow> cell" where
  "np_mean xs =
     (if xs = [] \<or> None \<in> set xs then None
      else Some (sum_list (map the xs) / real (length xs)))"

text \<open>
  The splitter object \<^verbatim>\<open>cv\<close>: the two methods that \<^verbatim>\<open>evaluate\<close> calls. The generator
  \<^verbatim>\<open>cv.split(y)\<close> is taken to be finite and is modelled by the list of the pairs it yields.
\<close>

record splitter =
  get_n_splits :: "series \<Rightarrow> nat"
  split :: "series \<Rightarrow> window list"

text \<open>
  The methods of the forecaster class, as functions of the object's state \<open>'st\<close>;
  \<open>'p\<close> is the type of a parameter dictionary. \<open>clone_method\<close> is what \<^verbatim>\<open>clone\<close>
  builds from the state of the object it is given.
\<close>

record ('st, 'p) forecaster_class =
  fit_method :: "'st \<Rightarrow> series \<Rightarrow> horizon \<Rightarrow> error + 'st"
  predict_method :: "'st \<Rightarrow> error + series \<times> 'st"
  set_params_method :: "'st \<Rightarrow> 'p \<Rightarrow> error + 'st"
  clone_method :: "'st \<Rightarrow> error + 'st"

text \<open>
  The calls made on forecaster objects, by address. The log of calls is ghost state: the
  notebook keeps no such log; it is what the statements about how often and on which object
  a method is called talk about.

  The store is the list of the states of the objects allocated so far, and the address of
  an object is its index. A Python reference always names a live object: \<open>a\<close> is a reference
  in the store \<open>w\<close> when \<open>a < length (heap w)\<close>, and the statements that read the state of an
  object assume so.
\<close>

datatype 'p call =
    Fit nat series horizon
  | Predict nat
  | SetParams nat 'p
  | Clone nat nat

record ('st, 'p) world =
  heap :: "'st list"
  calls :: "'p call list"

subsection \<open>Calls on forecaster objects\<close>

definition fit ::
  "('st, 'p) forecaster_class \<Rightarrow> nat \<Rightarrow> series \<Rightarrow> horizon \<Rightarrow> ('st, 'p) world
     \<Rightarrow> (error + unit) \<times> ('st, 'p) world" where
  "fit F a y_train fh w =
     (case fit_method F (heap w ! a) y_train fh of
        Inl e \<Rightarrow> (Inl e, w\<lparr>calls := calls w @ [Fit a y_train fh]\<rparr>)
      | Inr s \<Rightarrow>
          (Inr (), w\<lparr>heap := (heap w)[a := s], calls := calls w @ [Fit a y_train fh]\<rparr>))"

definition predict ::
  "('st, 'p) forecaster_class \<Rightarrow> nat \<Rightarrow> ('st, 'p) world
     \<Rightarrow> (error + series) \<times> ('st, 'p) world" where
  "predict F a w =
     (case predict_method F (heap w ! a) of
        Inl e \<Rightarrow> (Inl e, w\<lparr>calls := calls w @ [Predict a]\<rparr>)
      | Inr (y_pred, s) \<Rightarrow>
          (Inr y_pred, w\<lparr>heap := (heap w)[a := s], calls := calls w @ [Predict a]\<rparr>))"

definition set_params ::
  "('st, 'p) forecaster_class \<Rightarrow> nat \<Rightarrow> 'p \<Rightarrow> ('st, 'p) world
     \<Rightarrow> (error + unit) \<times> ('st, 'p) world" where
  "set_params F a params w =
     (case set_params_method F (heap w ! a) params of
        Inl e \<Rightarrow> (Inl e, w\<lparr>calls := calls w @ [SetParams a params]\<rparr>)
      | Inr s \<Rightarrow>
          (Inr (), w\<lparr>heap := (heap w)[a := s], calls := calls w @ [SetParams a params]\<rparr>))"

text \<open>
  \<^verbatim>\<open>clone(obj)\<close> allocates a new object and returns its address. \<^verbatim>\<open>clone\<close> is a library
  function; it is taken to read the object it copies and not to write to it.
\<close>

definition clone ::
  "('st, 'p) forecaster_class \<Rightarrow> nat \<Rightarrow> ('st, 'p) world
     \<Rightarrow> (error + nat) \<times> ('st, 'p) world" where
  "clone F a w =
     (case clone_method F (heap w ! a) of
        Inl e \<Rightarrow> (Inl e, w\<lparr>calls := calls w @ [Clone a (length (heap w))]\<rparr>)
      | Inr s \<Rightarrow>
          (Inr (length (heap w)),
           w\<lparr>heap := heap w @ [s], calls := calls w @ [Clone a (length (heap w))]\<rparr>))"

subsection \<open>evaluate\<close>

text \<open>
  The body of the loop of \<^verbatim>\<open>evaluate\<close> up to the score of one window: slice, fit,
  predict, score.
\<close>

definition evaluate_window ::
  "('st, 'p) forecaster_class \<Rightarrow> nat \<Rightarrow> series \<Rightarrow> horizon \<Rightarrow> scoring_fn option \<Rightarrow> window
     \<Rightarrow> ('st, 'p) world \<Rightarrow> (error + real) \<times> ('st, 'p) world" where
  "evaluate_window F forecaster y fh scoring tt w =
     (case iloc y (fst tt) of
        Inl e \<Rightarrow> (Inl e, w)
      | Inr y_train \<Rightarrow>
     (case iloc y (snd tt) of
        Inl e \<Rightarrow> (Inl e, w)
      | Inr y_test \<Rightarrow>
     (case fit F forecaster y_train fh w of
        (Inl e, w1) \<Rightarrow> (Inl e, w1)
      | (Inr u, w1) \<Rightarrow>
     (case predict F forecaster w1 of
        (Inl e, w2) \<Rightarrow> (Inl e, w2)
      | (Inr y_pred, w2) \<Rightarrow>
     (case scoring of
        None \<Rightarrow> (Inl TypeError, w2)
      | Some f \<Rightarrow>
     (case f y_test y_pred of
        Inl e \<Rightarrow> (Inl e, w2)
      | Inr s \<Rightarrow> (Inr s, w2)))))))"

text \<open>
  The loop \<^verbatim>\<open>for i, (train, test) in enumerate(cv.split(y))\<close>, from index \<open>i\<close> on. The
  write \<^verbatim>\<open>scores[i] = ...\<close> raises when \<open>i\<close> is outside the array.
\<close>

fun evaluate_loop ::
  "('st, 'p) forecaster_class \<Rightarrow> nat \<Rightarrow> series \<Rightarrow> horizon \<Rightarrow> scoring_fn option \<Rightarrow> nat
     \<Rightarrow> window list \<Rightarrow> cell list \<Rightarrow> ('st, 'p) world
     \<Rightarrow> (error + cell list) \<times> ('st, 'p) world" where
  "evaluate_loop F forecaster y fh scoring i [] scores w = (Inr scores, w)"
| "evaluate_loop F forecaster y fh scoring i (tt # rest) scores w =
     (case evaluate_window F forecaster y fh scoring tt w of
        (Inl e, w') \<Rightarrow> (Inl e, w')
      | (Inr s, w') \<Rightarrow>
          if i < length scores
          then evaluate_loop F forecaster y fh scoring (Suc i) rest (scores[i := Some s]) w'
          else (Inl IndexError, w'))"

text \<open>
  \<^verbatim>\<open>evaluate(forecaster, y, fh, cv=None, strategy="refit", scoring=None)\<close>. The three
  checks at its head are comments only, so \<open>strategy\<close> is never read.
\<close>

definition evaluate ::
  "('st, 'p) forecaster_class \<Rightarrow> nat \<Rightarrow> series \<Rightarrow> horizon \<Rightarrow> splitter option \<Rightarrow> string
     \<Rightarrow> scoring_fn option \<Rightarrow> ('st, 'p) world \<Rightarrow> (error + cell list) \<times> ('st, 'p) world" where
  "evaluate F forecaster y fh cv strategy scoring w =
     (case cv of
        None \<Rightarrow> (Inl AttributeError, w)
      | Some c \<Rightarrow>
          evaluate_loop F forecaster y fh scoring 0 (split c y)
            (np_empty (get_n_splits c y)) w)"

subsection \<open>ForecastingGridSearchCV.fit\<close>

text \<open>The attributes of \<^verbatim>\<open>self\<close> that \<^verbatim>\<open>fit\<close> reads; the forecaster is a reference.\<close>

record 'p ForecastingGridSearchCV =
  forecaster :: nat
  param_grid :: "'p list"
  cv :: "splitter option"
  strategy :: string
  scoring :: "scoring_fn option"

text \<open>The body of the loop over \<^verbatim>\<open>param_grid\<close> up to \<^verbatim>\<open>np.mean(scores)\<close>.\<close>

definition fit_params ::
  "('st, 'p) forecaster_class \<Rightarrow> 'p ForecastingGridSearchCV \<Rightarrow> series \<Rightarrow> horizon \<Rightarrow> 'p
     \<Rightarrow> ('st, 'p) world \<Rightarrow> (error + cell) \<times> ('st, 'p) world" where
  "fit_params F self y fh params w =
     (case clone F (forecaster self) w of
        (Inl e, w1) \<Rightarrow> (Inl e, w1)
      | (Inr a, w1) \<Rightarrow>
     (case set_params F a params w1 of
        (Inl e, w2) \<Rightarrow> (Inl e, w2)
      | (Inr u, w2) \<Rightarrow>
     (case evaluate F a y fh (cv self) (strategy self) (scoring self) w2 of
        (Inl e, w3) \<Rightarrow> (Inl e, w3)
      | (Inr scores, w3) \<Rightarrow> (Inr (np_mean scores), w3))))"

text \<open>The loop \<^verbatim>\<open>for i, params in enumerate(self.param_grid)\<close>, from index \<open>i\<close> on.\<close>

fun fit_loop ::
  "('st, 'p) forecaster_class \<Rightarrow> 'p ForecastingGridSearchCV \<Rightarrow> series \<Rightarrow> horizon \<Rightarrow> nat
     \<Rightarrow> 'p list \<Rightarrow> cell list \<Rightarrow> ('st, 'p) world
     \<Rightarrow> (error + cell list) \<times> ('st, 'p) world" where
  "fit_loop F self y fh i [] cv_results w = (Inr cv_results, w)"
| "fit_loop F self y fh i (params # rest) cv_results w =
     (case fit_params F self y fh params w of
        (Inl e, w') \<Rightarrow> (Inl e, w')
      | (Inr m, w') \<Rightarrow>
          if i < length cv_results
          then fit_loop F self y fh (Suc i) rest (cv_results[i := m]) w'
          else (Inl IndexError, w'))"

text \<open>
  The array \<^verbatim>\<open>cv_results\<close> is a local variable of \<^verbatim>\<open>fit\<close>: \<open>fit_cv_results\<close> is its
  value when the loop ends. \<^verbatim>\<open>fit\<close> itself ends with \<^verbatim>\<open>return self\<close>; where the source
  has the comment \<^verbatim>\<open># select best params\<close> there is no statement. \<open>X\<close> is never read.
\<close>

definition fit_cv_results ::
  "('st, 'p) forecaster_class \<Rightarrow> 'p ForecastingGridSearchCV \<Rightarrow> series \<Rightarrow> horizon
     \<Rightarrow> ('st, 'p) world \<Rightarrow> (error + cell list) \<times> ('st, 'p) world" where
  "fit_cv_results F self y fh w =
     fit_loop F self y fh 0 (param_grid self) (np_empty (length (param_grid self))) w"

definition ForecastingGridSearchCV_fit ::
  "('st, 'p) forecaster_class \<Rightarrow> 'p ForecastingGridSearchCV \<Rightarrow> series \<Rightarrow> horizon
     \<Rightarrow> series option \<Rightarrow> ('st, 'p) world
     \<Rightarrow> (error + 'p ForecastingGridSearchCV) \<times> ('st, 'p) world" where
  "ForecastingGridSearchCV_fit F self y fh X w =
     (case fit_cv_results F self y fh w of
        (Inl e, w') \<Rightarrow> (Inl e, w')
      | (Inr cv_results, w') \<Rightarrow> (Inr self, w'))"

subsection \<open>Reference functions\<close>

text \<open>
  The score of one window as a function of the forecaster's state alone, with no store:
  slice, fit from state \<open>s\<close>, predict, score. It is what the loop body of \<^verbatim>\<open>evaluate\<close> is
  compared with.
\<close>

definition window_score ::
  "('st, 'p) forecaster_class \<Rightarrow> series \<Rightarrow> horizon \<Rightarrow> scoring_fn option \<Rightarrow> window \<Rightarrow> 'st
     \<Rightarrow> error + real \<times> 'st" where
  "window_score F y fh sc tt s =
     (case iloc y (fst tt) of
        Inl e \<Rightarrow> Inl e
      | Inr y_train \<Rightarrow>
     (case iloc y (snd tt) of
        Inl e \<Rightarrow> Inl e
      | Inr y_test \<Rightarrow>
     (case fit_method F s y_train fh of
        Inl e \<Rightarrow> Inl e
      | Inr s1 \<Rightarrow>
     (case predict_method F s1 of
        Inl e \<Rightarrow> Inl e
      | Inr (y_pred, s2) \<Rightarrow>
     (case sc of
        None \<Rightarrow> Inl TypeError
      | Some f \<Rightarrow>
     (case f y_test y_pred of
        Inl e \<Rightarrow> Inl e
      | Inr r \<Rightarrow> Inr (r, s2)))))))"

text \<open>
  The state of the forecaster after a list of windows has been scored one after the other,
  starting from state \<open>s\<close>.
\<close>

fun state_after ::
  "('st, 'p) forecaster_class \<Rightarrow> series \<Rightarrow> horizon \<Rightarrow> scoring_fn option \<Rightarrow> window list \<Rightarrow> 'st
     \<Rightarrow> error + 'st" where
  "state_after F y fh sc [] s = Inr s"
| "state_after F y fh sc (tt # rest) s =
     (case window_score F y fh sc tt s of
        Inl e \<Rightarrow> Inl e
      | Inr (r, s') \<Rightarrow> state_after F y fh sc rest s')"

subsection \<open>The window splitter of the specification\<close>

text \<open>
  The notebook receives \<^verbatim>\<open>cv\<close> from its caller; the splitter itself is not part of the
  notebook. The definitions of this subsection are modelled from the specification's
  description of the WindowSplitter and its four strategies.
\<close>

text \<open>
  Modelled from the spec: the four split strategies, the parameters of \<open>generate\<close> (the
  initial window length is optional) and the error of a series that is too short, which names
  the minimum length (no splitter is in the sources).
\<close>

datatype split_kind = Blocked | Sliding | SlidingWithInitialWindow | Expanding

record split_config =
  kind :: split_kind
  window_length :: nat
  step_length :: nat
  initial_window_length :: "nat option"
  horizon_length :: nat

datatype split_error = InsufficientDataError nat

text \<open>
  Modelled from the spec: the configuration surface of the WindowSplitter (no splitter is in
  the sources). The lengths are positive integers; the initial window length is given for
  the strategy that has an initial window.
\<close>

definition valid_config :: "split_config \<Rightarrow> bool" where
  "valid_config cfg =
     (0 < window_length cfg \<and> 0 < step_length cfg \<and> 0 < horizon_length cfg \<and>
      (case initial_window_length cfg of None \<Rightarrow> True | Some n \<Rightarrow> 0 < n) \<and>
      (kind cfg \<noteq> SlidingWithInitialWindow \<or> initial_window_length cfg \<noteq> None))"

text \<open>
  Modelled from the spec: the end of the first train window (no splitter is in the
  sources). It is the initial window length for \<open>sliding-with-initial-window\<close> and the
  window length for the other strategies.
\<close>

definition first_train_end :: "split_config \<Rightarrow> nat" where
  "first_train_end cfg =
     (case kind cfg of
        SlidingWithInitialWindow \<Rightarrow>
          (case initial_window_length cfg of None \<Rightarrow> 0 | Some n \<Rightarrow> n)
      | _ \<Rightarrow> window_length cfg)"

text \<open>
  Modelled from the spec: by how much the start and the end of the train window move from
  one window to the next (no splitter is in the sources). \<open>blocked\<close>: contiguous blocks that
  do not overlap, so both move by a whole block, train and test. \<open>sliding\<close>: the train
  window of fixed size slides by the step. \<open>expanding\<close> and \<open>sliding-with-initial-window\<close>
  (whose train window is the cumulative history): the start stays at 0 and the end grows by
  the step.
\<close>

definition start_stride :: "split_config \<Rightarrow> nat" where
  "start_stride cfg =
     (case kind cfg of
        Blocked \<Rightarrow> window_length cfg + horizon_length cfg
      | Sliding \<Rightarrow> step_length cfg
      | SlidingWithInitialWindow \<Rightarrow> 0
      | Expanding \<Rightarrow> 0)"

definition end_stride :: "split_config \<Rightarrow> nat" where
  "end_stride cfg =
     (case kind cfg of
        Blocked \<Rightarrow> window_length cfg + horizon_length cfg
      | _ \<Rightarrow> step_length cfg)"

text \<open>
  Modelled from the spec: the generated sequence (no splitter is in the sources). A window
  is the train positions from \<open>s\<close> up to \<open>e\<close> and the test positions of the horizon that
  follow immediately; windows are produced as long as the test window fits in the series.
\<close>

function windows_from :: "nat \<Rightarrow> nat \<Rightarrow> nat \<Rightarrow> nat \<Rightarrow> nat \<Rightarrow> nat \<Rightarrow> window list" where
  "windows_from n h ds de s e =
     (if 0 < de \<and> e + h \<le> n
      then ([s..<e], [e..<e + h]) # windows_from n h ds de (s + ds) (e + de)
      else [])"
  by pat_completeness auto
termination
  by (relation "measure (\<lambda>(n, h, ds, de, s, e). Suc n - e)") auto

declare windows_from.simps [simp del]

text \<open>
  Modelled from the spec: the sequence of windows of a configuration on a series of length
  \<open>n\<close>, from the first train window on (no splitter is in the sources).
\<close>

definition windows :: "nat \<Rightarrow> split_config \<Rightarrow> window list" where
  "windows n cfg =
     windows_from n (horizon_length cfg) (start_stride cfg) (end_stride cfg) 0
       (first_train_end cfg)"

text \<open>
  Modelled from the spec: \<open>generate\<close> fails with \<open>InsufficientDataError\<close>, naming the
  minimum length, when the series is too short for one window (no splitter is in the
  sources).
\<close>

definition generate :: "nat \<Rightarrow> split_config \<Rightarrow> split_error + window list" where
  "generate n cfg =
     (if n < first_train_end cfg + horizon_length cfg
      then Inl (InsufficientDataError (first_train_end cfg + horizon_length cfg))
      else Inr (windows n cfg))"

text \<open>
  Modelled from the spec: \<open>n_splits\<close> in closed form, from the integer parameters and
  without the sequence (no splitter is in the sources).
\<close>

definition n_splits :: "nat \<Rightarrow> split_config \<Rightarrow> nat" where
  "n_splits n cfg =
     (if first_train_end cfg + horizon_length cfg \<le> n
      then (n - first_train_end cfg - horizon_length cfg) div end_stride cfg + 1
      else 0)"

text \<open>Modelled from the spec: the splitter as the object \<^verbatim>\<open>cv\<close> that \<^verbatim>\<open>evaluate\<close> is given.\<close>

definition WindowSplitter :: "split_config \<Rightarrow> splitter" where
  "WindowSplitter cfg =
     \<lparr>get_n_splits = (\<lambda>y. n_splits (length y) cfg),
      split = (\<lambda>y. windows (length y) cfg)\<rparr>"

subsection \<open>Reference functions for one configuration\<close>

text \<open>
  The scores of a list of windows as a function of the forecaster's state alone, and the
  aggregate score of one configuration: clone the template's state, apply the parameters,
  score the windows of the split one after the other, take the mean. No store and no other
  configuration takes part. They are what the loop of \<^verbatim>\<open>ForecastingGridSearchCV.fit\<close> is
  compared with.
\<close>

fun scores_from ::
  "('st, 'p) forecaster_class \<Rightarrow> series \<Rightarrow> horizon \<Rightarrow> scoring_fn option \<Rightarrow> nat \<Rightarrow> window list
     \<Rightarrow> cell list \<Rightarrow> 'st \<Rightarrow> error + cell list" where
  "scores_from F y fh sc i [] scores s = Inr scores"
| "scores_from F y fh sc i (tt # rest) scores s =
     (case window_score F y fh sc tt s of
        Inl e \<Rightarrow> Inl e
      | Inr (r, s') \<Rightarrow>
          if i < length scores
          then scores_from F y fh sc (Suc i) rest (scores[i := Some r]) s'
          else Inl IndexError)"

definition config_score ::
  "('st, 'p) forecaster_class \<Rightarrow> series \<Rightarrow> horizon \<Rightarrow> splitter option \<Rightarrow> scoring_fn option
     \<Rightarrow> 'st \<Rightarrow> 'p \<Rightarrow> error + cell" where
  "config_score F y fh c sc template params =
     (case clone_method F template of
        Inl e \<Rightarrow> Inl e
      | Inr s0 \<Rightarrow>
     (case set_params_method F s0 params of
        Inl e \<Rightarrow> Inl e
      | Inr s1 \<Rightarrow>
     (case c of
        None \<Rightarrow> Inl AttributeError
      | Some splitter \<Rightarrow>
     (case scores_from F y fh sc 0 (split splitter y) (np_empty (get_n_splits splitter y)) s1 of
        Inl e \<Rightarrow> Inl e
      | Inr scores \<Rightarrow> Inr (np_mean scores)))))"

text \<open>The number of \<^verbatim>\<open>fit\<close> calls in a log of calls.\<close>

fun is_fit :: "'p call \<Rightarrow> bool" where
  "is_fit (Fit a tr fh) = True"
| "is_fit c = False"

definition fit_count :: "'p call list \<Rightarrow> nat" where
  "fit_count cs = length (filter is_fit cs)"

subsection \<open>Example objects\<close>

text \<open>
  Concrete collaborators on which the statements below are run. \<open>naive\<close> is a forecaster
  that never raises: its state is a drift parameter and the last observation it was fitted
  on; it predicts one step, the last observation plus the drift.
\<close>

definition naive :: "(real \<times> real option, real) forecaster_class" where
  "naive =
     \<lparr>fit_method = (\<lambda>s tr fh. Inr (fst s, Some (if tr = [] then 0 else last tr))),
      predict_method = (\<lambda>s. Inr ([(case snd s of None \<Rightarrow> 0 | Some v \<Rightarrow> v) + fst s], s)),
      set_params_method = (\<lambda>s p. Inr (p, snd s)),
      clone_method = (\<lambda>s. Inr (fst s, None))\<rparr>"

text \<open>
  A scoring function (the sum of the absolute errors over the steps predicted), a series of
  five observations with the store that holds one unfitted \<open>naive\<close> forecaster, and two
  splitters that yield the same two expanding windows but report three splits and one.
\<close>

definition abs_error :: scoring_fn where
  "abs_error y_test y_pred = Inr (sum_list (map2 (\<lambda>a b. \<bar>a - b\<bar>) y_test y_pred))"

definition y5 :: series where
  "y5 = [1, 2, 4, 7, 11]"

definition w_naive :: "(real \<times> real option, real) world" where
  "w_naive = \<lparr>heap = [(0, None)], calls = []\<rparr>"

definition cv_few :: splitter where
  "cv_few = \<lparr>get_n_splits = (\<lambda>y. 3), split = (\<lambda>y. [([0, 1], [2]), ([0, 1, 2], [3])])\<rparr>"


text \<open>
  \<open>strict\<close> is \<open>naive\<close> with the failures of a real forecaster: fitting an empty series
  raises, and so does predicting before any fit. \<open>warm\<close> is a forecaster with a warm start:
  its \<^verbatim>\<open>fit\<close> continues from the state the object is in.
\<close>

definition strict :: "(real \<times> real option, real) forecaster_class" where
  "strict =
     \<lparr>fit_method = (\<lambda>s tr fh.
        if tr = [] then Inl (Raised ''empty series'') else Inr (fst s, Some (last tr))),
      predict_method = (\<lambda>s.
        case snd s of
          None \<Rightarrow> Inl (Raised ''NotFittedError'')
        | Some v \<Rightarrow> Inr ([v + fst s], s)),
      set_params_method = (\<lambda>s p. Inr (p, snd s)),
      clone_method = (\<lambda>s. Inr (fst s, None))\<rparr>"

definition warm :: "(real, real) forecaster_class" where
  "warm =
     \<lparr>fit_method = (\<lambda>s tr fh. Inr (s + sum_list tr)),
      predict_method = (\<lambda>s. Inr ([s], s)),
      set_params_method = (\<lambda>s p. Inr s),
      clone_method = (\<lambda>s. Inr 0)\<rparr>"

text \<open>
  Splitters with explicit windows: two windows and the second of them alone; three windows
  of which the second has an empty train set.
\<close>

definition w_warm :: "(real, real) world" where
  "w_warm = \<lparr>heap = [0], calls = []\<rparr>"

definition cv_two :: splitter where
  "cv_two = \<lparr>get_n_splits = (\<lambda>y. 2), split = (\<lambda>y. [([0], [1]), ([1], [2])])\<rparr>"

definition cv_second :: splitter where
  "cv_second = \<lparr>get_n_splits = (\<lambda>y. 1), split = (\<lambda>y. [([1], [2])])\<rparr>"

definition cv_degenerate :: splitter where
  "cv_degenerate =
     \<lparr>get_n_splits = (\<lambda>y. 3),
      split = (\<lambda>y. [([0, 1], [2]), ([], [3]), ([0, 1, 2], [3])])\<rparr>"

text \<open>
  Configurations of the splitter of the specification, a series of length 50, and a
  splitter that yields two expanding windows and reports two splits.
\<close>

definition sliding_2_1_1 :: split_config where
  "sliding_2_1_1 =
     \<lparr>kind = Sliding, window_length = 2, step_length = 1, initial_window_length = None,
      horizon_length = 1\<rparr>"

definition blocked_20_5 :: split_config where
  "blocked_20_5 =
     \<lparr>kind = Blocked, window_length = 20, step_length = 1, initial_window_length = None,
      horizon_length = 5\<rparr>"

definition initial_20_5_5 :: split_config where
  "initial_20_5_5 =
     \<lparr>kind = SlidingWithInitialWindow, window_length = 20, step_length = 5,
      initial_window_length = Some 20, horizon_length = 5\<rparr>"

definition y50 :: series where
  "y50 = map real [0..<50]"

definition cv_expanding :: splitter where
  "cv_expanding = \<lparr>get_n_splits = (\<lambda>y. 2), split = (\<lambda>y. [([0, 1], [2]), ([0, 1, 2], [3])])\<rparr>"

text \<open>
  Grid searches over the drift of \<open>naive\<close>, with the template at address 0, and a splitter
  whose two windows have the same train set.
\<close>

definition cv_same_train :: splitter where
  "cv_same_train =
     \<lparr>get_n_splits = (\<lambda>y. 2), split = (\<lambda>y. [([0, 1], [2]), ([0, 1], [3])])\<rparr>"

definition gs_tie :: "real ForecastingGridSearchCV" where
  "gs_tie =
     \<lparr>forecaster = 0, param_grid = [0, 5], cv = Some cv_expanding, strategy = ''refit'',
      scoring = Some abs_error\<rparr>"

definition gs_same_train :: "real ForecastingGridSearchCV" where
  "gs_same_train =
     \<lparr>forecaster = 0, param_grid = [0], cv = Some cv_same_train, strategy = ''refit'',
      scoring = Some abs_error\<rparr>"

definition gs_twice :: "real ForecastingGridSearchCV" where
  "gs_twice =
     \<lparr>forecaster = 0, param_grid = [1, 1], cv = Some cv_expanding, strategy = ''refit'',
      scoring = Some abs_error\<rparr>"

section \<open>Properties\<close>

subsection \<open>The store: what a call changes\<close>

lemma set_params_heap_length: "length (heap (snd (set_params F a p w))) = length (heap w)"
  by (simp add: set_params_def split: sum.splits)

lemma set_params_heap_other: "b \<noteq> a \<Longrightarrow> heap (snd (set_params F a p w)) ! b = heap w ! b"
  by (simp add: set_params_def split: sum.splits)

lemma clone_heap_old: "b < length (heap w) \<Longrightarrow> heap (snd (clone F a w)) ! b = heap w ! b"
  by (simp add: clone_def nth_append split: sum.splits)

lemma clone_Inr:
  "clone F a w = (Inr b, w') \<Longrightarrow>
     b = length (heap w) \<and> length (heap w') = Suc (length (heap w))"
  by (auto simp: clone_def split: sum.splits)

text \<open>What a window that is scored has done.\<close>

lemma evaluate_window_Inr:
  assumes "evaluate_window F a y fh sc tt w = (Inr r, w')"
  shows "\<exists>tr te s1 yp s2 f.
           iloc y (fst tt) = Inr tr \<and> iloc y (snd tt) = Inr te \<and>
           fit_method F (heap w ! a) tr fh = Inr s1 \<and>
           predict_method F ((heap w)[a := s1] ! a) = Inr (yp, s2) \<and>
           sc = Some f \<and> f te yp = Inr r \<and>
           w' = w\<lparr>heap := (heap w)[a := s1, a := s2],
                  calls := calls w @ [Fit a tr fh, Predict a]\<rparr>"
  using assms
  by (auto simp: evaluate_window_def fit_def predict_def
           split: sum.splits prod.splits option.splits)

lemma evaluate_window_heap_length:
  "length (heap (snd (evaluate_window F a y fh sc tt w))) = length (heap w)"
  by (auto simp: evaluate_window_def fit_def predict_def
           split: sum.splits prod.splits option.splits)

lemma evaluate_window_heap_other:
  "b \<noteq> a \<Longrightarrow> heap (snd (evaluate_window F a y fh sc tt w)) ! b = heap w ! b"
  by (auto simp: evaluate_window_def fit_def predict_def
           split: sum.splits prod.splits option.splits)

lemma evaluate_loop_heap_length:
  "length (heap (snd (evaluate_loop F a y fh sc i ws scores w))) = length (heap w)"
proof (induction ws arbitrary: i scores w)
  case Nil
  show ?case by simp
next
  case (Cons tt ws)
  show ?case
  proof (cases "evaluate_window F a y fh sc tt w")
    case (Pair r w1)
    have len: "length (heap w1) = length (heap w)"
      using evaluate_window_heap_length [of F a y fh sc tt w] Pair by simp
    show ?thesis
      using Pair len Cons.IH [of "Suc i" _ w1]
      by (cases r) simp_all
  qed
qed

lemma evaluate_loop_heap_other:
  "b \<noteq> a \<Longrightarrow> heap (snd (evaluate_loop F a y fh sc i ws scores w)) ! b = heap w ! b"
proof (induction ws arbitrary: i scores w)
  case Nil
  show ?case by simp
next
  case (Cons tt ws)
  show ?case
  proof (cases "evaluate_window F a y fh sc tt w")
    case (Pair r w1)
    have other: "heap w1 ! b = heap w ! b"
      using evaluate_window_heap_other [OF Cons.prems, of F y fh sc tt w] Pair by simp
    show ?thesis
      using Pair other Cons.IH [OF Cons.prems, of "Suc i" _ w1]
      by (cases r) simp_all
  qed
qed

subsection \<open>Collaborators that never raise\<close>

lemma evaluate_window_total:
  assumes "\<forall>s tr h. \<exists>s'. fit_method F s tr h = Inr s'"
    and "\<forall>s. \<exists>r. predict_method F s = Inr r"
    and "\<forall>te yp. \<exists>r. f te yp = Inr r"
    and "list_all (\<lambda>i. i < length y) (fst tt)"
    and "list_all (\<lambda>i. i < length y) (snd tt)"
  shows "\<exists>r w'. evaluate_window F a y fh (Some f) tt w = (Inr r, w')"
proof -
  obtain s1 where s1: "fit_method F (heap w ! a) (map (\<lambda>i. y ! i) (fst tt)) fh = Inr s1"
    using assms(1) by blast
  obtain yp s2 where s2: "predict_method F ((heap w)[a := s1] ! a) = Inr (yp, s2)"
    using assms(2) by (metis surj_pair)
  obtain r where r: "f (map (\<lambda>i. y ! i) (snd tt)) yp = Inr r"
    using assms(3) by blast
  show ?thesis
    using assms(4,5) s1 s2 r
    by (simp add: evaluate_window_def iloc_def fit_def predict_def)
qed

lemma evaluate_loop_total_fits:
  assumes "\<forall>s tr h. \<exists>s'. fit_method F s tr h = Inr s'"
    and "\<forall>s. \<exists>r. predict_method F s = Inr r"
    and "\<forall>te yp. \<exists>r. f te yp = Inr r"
    and "list_all (\<lambda>tt. list_all (\<lambda>i. i < length y) (fst tt) \<and>
                         list_all (\<lambda>i. i < length y) (snd tt)) ws"
    and "i + length ws \<le> length scores"
  shows "\<exists>scores' w'.
           evaluate_loop F a y fh (Some f) i ws scores w = (Inr scores', w') \<and>
           length scores' = length scores \<and>
           (\<forall>j. i \<le> j \<and> j < i + length ws \<longrightarrow> scores' ! j \<noteq> None) \<and>
           (\<forall>j. j < i \<or> i + length ws \<le> j \<longrightarrow> scores' ! j = scores ! j)"
  using assms(4,5)
proof (induction ws arbitrary: i scores w)
  case Nil
  then show ?case by auto
next
  case (Cons tt ws)
  from Cons.prems(1) have tt: "list_all (\<lambda>i. i < length y) (fst tt)"
      "list_all (\<lambda>i. i < length y) (snd tt)"
    and ws: "list_all (\<lambda>tt. list_all (\<lambda>i. i < length y) (fst tt) \<and>
                         list_all (\<lambda>i. i < length y) (snd tt)) ws"
    by simp_all
  obtain r w1 where step: "evaluate_window F a y fh (Some f) tt w = (Inr r, w1)"
    using evaluate_window_total [OF assms(1,2,3) tt] by blast
  have i: "i < length scores" using Cons.prems(2) by simp
  have room: "Suc i + length ws \<le> length (scores[i := Some r])"
    using Cons.prems(2) by simp
  obtain scores' w' where
    run: "evaluate_loop F a y fh (Some f) (Suc i) ws (scores[i := Some r]) w1 = (Inr scores', w')"
    and len: "length scores' = length (scores[i := Some r])"
    and new: "\<forall>j. Suc i \<le> j \<and> j < Suc i + length ws \<longrightarrow> scores' ! j \<noteq> None"
    and old: "\<forall>j. j < Suc i \<or> Suc i + length ws \<le> j \<longrightarrow> scores' ! j = (scores[i := Some r]) ! j"
    using Cons.IH [OF ws room, of w1] by blast
  have whole: "evaluate_loop F a y fh (Some f) i (tt # ws) scores w = (Inr scores', w')"
    using step i run by simp
  have at_i: "scores' ! i = Some r" using old i by simp
  have new': "\<forall>j. i \<le> j \<and> j < i + length (tt # ws) \<longrightarrow> scores' ! j \<noteq> None"
  proof (intro allI impI)
    fix j assume j: "i \<le> j \<and> j < i + length (tt # ws)"
    show "scores' ! j \<noteq> None"
    proof (cases "j = i")
      case True
      then show ?thesis using at_i by simp
    next
      case False
      then show ?thesis using j new by simp
    qed
  qed
  have old': "\<forall>j. j < i \<or> i + length (tt # ws) \<le> j \<longrightarrow> scores' ! j = scores ! j"
  proof (intro allI impI)
    fix j assume j: "j < i \<or> i + length (tt # ws) \<le> j"
    then have ne: "i \<noteq> j" and "j < Suc i \<or> Suc i + length ws \<le> j" by auto
    then have "scores' ! j = (scores[i := Some r]) ! j" using old by blast
    then show "scores' ! j = scores ! j" using ne by simp
  qed
  show ?case using whole len new' old' by simp
qed


subsection \<open>The pre-allocated score array\<close>



subsection \<open>The loop of evaluate\<close>

lemma evaluate_loop_append:
  "evaluate_loop F a y fh sc i (ws1 @ ws2) scores w =
     (case evaluate_loop F a y fh sc i ws1 scores w of
        (Inl e, w1) \<Rightarrow> (Inl e, w1)
      | (Inr scores1, w1) \<Rightarrow> evaluate_loop F a y fh sc (i + length ws1) ws2 scores1 w1)"
proof (induction ws1 arbitrary: i scores w)
  case Nil
  show ?case by simp
next
  case (Cons tt ws1)
  show ?case
    by (simp add: Cons.IH split: prod.splits sum.splits)
qed

lemma evaluate_loop_calls:
  "evaluate_loop F a y fh sc i ws scores w = (Inr scores', w') \<Longrightarrow>
     calls w' =
       calls w @ concat (map (\<lambda>tt. [Fit a (map (\<lambda>i. y ! i) (fst tt)) fh, Predict a]) ws)"
proof (induction ws arbitrary: i scores w)
  case Nil
  then show ?case by simp
next
  case (Cons tt ws)
  from Cons.prems obtain r w1 where
    step: "evaluate_window F a y fh sc tt w = (Inr r, w1)"
    and rest: "evaluate_loop F a y fh sc (Suc i) ws (scores[i := Some r]) w1 = (Inr scores', w')"
    by (auto split: prod.splits sum.splits if_splits)
  have "calls w1 = calls w @ [Fit a (map (\<lambda>i. y ! i) (fst tt)) fh, Predict a]"
    using evaluate_window_Inr [OF step] by (auto simp: iloc_def split: if_splits)
  then show ?case
    using Cons.IH [OF rest] by simp
qed

lemma evaluate_loop_prefix_kept:
  "evaluate_loop F a y fh sc i ws scores w = (Inr scores', w') \<Longrightarrow> j < i \<Longrightarrow>
     scores' ! j = scores ! j"
proof (induction ws arbitrary: i scores w)
  case Nil
  then show ?case by simp
next
  case (Cons tt ws)
  from Cons.prems(1) obtain r w1 where
    rest: "evaluate_loop F a y fh sc (Suc i) ws (scores[i := Some r]) w1 = (Inr scores', w')"
    by (auto split: prod.splits sum.splits if_splits)
  have "scores' ! j = (scores[i := Some r]) ! j"
    using Cons.IH [OF rest] Cons.prems(2) by simp
  then show ?case using Cons.prems(2) by simp
qed

subsection \<open>Failures\<close>

text \<open>
  C4, as the code has it. \<^verbatim>\<open>evaluate\<close> has no \<^verbatim>\<open>try\<close> and no \<^verbatim>\<open>fail_fast\<close> parameter. When the
  windows before a window are scored and slicing, fit, predict or scoring raises for that
  window, \<^verbatim>\<open>evaluate\<close> raises the same exception, in the state the failing call left: no
  score array is returned and no later window is processed.
\<close>

theorem evaluate_aborts_at_first_failure:
  assumes "split c y = ws1 @ tt # ws2"
    and "evaluate_loop F a y fh sc 0 ws1 (np_empty (get_n_splits c y)) w = (Inr scores1, w1)"
    and "evaluate_window F a y fh sc tt w1 = (Inl e, w2)"
  shows "evaluate F a y fh (Some c) strat sc w = (Inl e, w2)"
  using assms by (simp add: evaluate_def evaluate_loop_append)

text \<open>
  C4 as the specification states it, that a failing window is recorded and the remaining
  windows are still evaluated, does not hold: \<open>strict\<close> raises on the empty train set of the second of three windows, and
  \<^verbatim>\<open>evaluate\<close> raises there; the third window is never fitted.
\<close>

theorem evaluate_window_failure_aborts:
  "evaluate strict 0 y5 None (Some cv_degenerate) ''refit'' (Some abs_error) w_naive
     = (Inl (Raised ''empty series''),
        \<lparr>heap = [(0, Some 2)], calls = [Fit 0 [1, 2] None, Predict 0, Fit 0 [] None]\<rparr>)"
  by (simp add: evaluate_def evaluate_window_def fit_def predict_def iloc_def np_empty_def
        strict_def abs_error_def y5_def w_naive_def cv_degenerate_def)

text \<open>A failure of the scoring step (\<^verbatim>\<open>scoring\<close> left at \<^verbatim>\<open>None\<close>) in the first window.\<close>

theorem evaluate_aborts_at_first_failure_witness:
  "split cv_few y5 = [] @ ([0, 1], [2]) # [([0, 1, 2], [3])] \<and>
   evaluate_loop naive 0 y5 None None 0 [] (np_empty (get_n_splits cv_few y5)) w_naive
     = (Inr [None, None, None], w_naive) \<and>
   evaluate_window naive 0 y5 None None ([0, 1], [2]) w_naive
     = (Inl TypeError, \<lparr>heap = [(0, Some 2)], calls = [Fit 0 [1, 2] None, Predict 0]\<rparr>) \<and>
   evaluate naive 0 y5 None (Some cv_few) ''update'' None w_naive
     = (Inl TypeError, \<lparr>heap = [(0, Some 2)], calls = [Fit 0 [1, 2] None, Predict 0]\<rparr>)"
proof -
  have h1: "split cv_few y5 = [] @ ([0, 1], [2]) # [([0, 1, 2], [3])]"
    by (simp add: cv_few_def)
  have h2: "evaluate_loop naive 0 y5 None None 0 [] (np_empty (get_n_splits cv_few y5)) w_naive
              = (Inr [None, None, None], w_naive)"
    by (simp add: np_empty_def cv_few_def numeral_3_eq_3)
  have h3: "evaluate_window naive 0 y5 None None ([0, 1], [2]) w_naive
              = (Inl TypeError,
                 \<lparr>heap = [(0, Some 2)], calls = [Fit 0 [1, 2] None, Predict 0]\<rparr>)"
    by (simp add: evaluate_window_def fit_def predict_def iloc_def naive_def y5_def w_naive_def)
  show ?thesis
    using h1 h2 h3 evaluate_aborts_at_first_failure [OF h1 h2 h3, of "''update''"] by simp
qed

subsection \<open>Refitting\<close>

lemma evaluate_window_as_window_score:
  assumes "a < length (heap w)"
    and "evaluate_window F a y fh sc tt w = (Inr r, w1)"
  shows "\<exists>s2. window_score F y fh sc tt (heap w ! a) = Inr (r, s2) \<and> heap w1 ! a = s2"
proof -
  obtain tr te s1 yp s2 f where
    "iloc y (fst tt) = Inr tr" "iloc y (snd tt) = Inr te"
    "fit_method F (heap w ! a) tr fh = Inr s1"
    "predict_method F ((heap w)[a := s1] ! a) = Inr (yp, s2)"
    "sc = Some f" "f te yp = Inr r"
    "w1 = w\<lparr>heap := (heap w)[a := s1, a := s2],
            calls := calls w @ [Fit a tr fh, Predict a]\<rparr>"
    using evaluate_window_Inr [OF assms(2)] by blast
  then show ?thesis
    using assms(1) by (simp add: window_score_def)
qed

lemma window_score_params:
  assumes same: "\<forall>s s' tr h. P s = P s' \<longrightarrow> fit_method F s tr h = fit_method F s' tr h"
    and fit_keeps: "\<forall>s tr h s1. fit_method F s tr h = Inr s1 \<longrightarrow> P s1 = P s"
    and predict_keeps: "\<forall>s yp s2. predict_method F s = Inr (yp, s2) \<longrightarrow> P s2 = P s"
    and run: "window_score F y fh sc tt s = Inr (r, s2)"
    and eq: "P s0 = P s"
  shows "P s2 = P s \<and> (\<exists>s3. window_score F y fh sc tt s0 = Inr (r, s3))"
proof -
  from run obtain tr te s1 yp f where
    tr: "iloc y (fst tt) = Inr tr" and te: "iloc y (snd tt) = Inr te"
    and s1: "fit_method F s tr fh = Inr s1"
    and s2: "predict_method F s1 = Inr (yp, s2)"
    and f: "sc = Some f" "f te yp = Inr r"
    by (auto simp: window_score_def split: sum.splits prod.splits option.splits)
  have "fit_method F s0 tr fh = Inr s1"
    using same eq s1 by metis
  then have "window_score F y fh sc tt s0 = Inr (r, s2)"
    using tr te s2 f by (simp add: window_score_def)
  moreover have "P s2 = P s"
    using fit_keeps s1 predict_keeps s2 by metis
  ultimately show ?thesis by blast
qed

lemma evaluate_loop_independent:
  assumes same: "\<forall>s s' tr h. P s = P s' \<longrightarrow> fit_method F s tr h = fit_method F s' tr h"
    and fit_keeps: "\<forall>s tr h s1. fit_method F s tr h = Inr s1 \<longrightarrow> P s1 = P s"
    and predict_keeps: "\<forall>s yp s2. predict_method F s = Inr (yp, s2) \<longrightarrow> P s2 = P s"
  shows "a < length (heap w) \<Longrightarrow> P (heap w ! a) = P s0 \<Longrightarrow>
         evaluate_loop F a y fh sc i ws scores w = (Inr scores', w') \<Longrightarrow> k < length ws \<Longrightarrow>
         \<exists>r s'. window_score F y fh sc (ws ! k) s0 = Inr (r, s') \<and> scores' ! (i + k) = Some r"
proof (induction ws arbitrary: i scores w k)
  case Nil
  then show ?case by simp
next
  case (Cons tt ws)
  from Cons.prems(3) obtain r w1 where
    step: "evaluate_window F a y fh sc tt w = (Inr r, w1)"
    and i: "i < length scores"
    and rest: "evaluate_loop F a y fh sc (Suc i) ws (scores[i := Some r]) w1 = (Inr scores', w')"
    by (auto split: prod.splits sum.splits if_splits)
  obtain s2 where here: "window_score F y fh sc tt (heap w ! a) = Inr (r, s2)"
    and s2: "heap w1 ! a = s2"
    using evaluate_window_as_window_score [OF Cons.prems(1) step] by blast
  have P2: "P s2 = P (heap w ! a)"
    and from_s0: "\<exists>s3. window_score F y fh sc tt s0 = Inr (r, s3)"
    using window_score_params [OF same fit_keeps predict_keeps here] Cons.prems(2) by auto
  have len1: "a < length (heap w1)"
    using evaluate_window_heap_length [of F a y fh sc tt w] step Cons.prems(1) by simp
  have P1: "P (heap w1 ! a) = P s0"
    using s2 P2 Cons.prems(2) by simp
  show ?case
  proof (cases k)
    case 0
    have "scores' ! i = (scores[i := Some r]) ! i"
      using evaluate_loop_prefix_kept [OF rest, of i] by simp
    then have "scores' ! i = Some r" using i by simp
    then show ?thesis using 0 from_s0 by auto
  next
    case (Suc k')
    then have "k' < length ws" using Cons.prems(4) by simp
    then show ?thesis
      using Cons.IH [OF len1 P1 rest, of k'] Suc by simp
  qed
qed

text \<open>
  C1, as the code has it. \<^verbatim>\<open>evaluate\<close> takes a forecaster object, not a factory. When it
  returns, the calls it has made are, window by window in the order of \<^verbatim>\<open>cv.split(y)\<close>,
  \<^verbatim>\<open>fit\<close> on that one object with the window's train subset and then \<^verbatim>\<open>predict\<close> on it. If
  what \<^verbatim>\<open>fit\<close> computes depends on the object only through something \<open>P\<close> (its
  hyper-parameters, say) that \<^verbatim>\<open>fit\<close> and \<^verbatim>\<open>predict\<close> leave as it is, then the score of every
  window is the score of that window evaluated alone on the object as it was passed in,
  whatever the windows before it were.
\<close>

theorem evaluate_refits_one_object:
  assumes "a < length (heap w)"
    and "evaluate F a y fh (Some c) strat sc w = (Inr scores, w')"
  shows "calls w' =
           calls w @
           concat (map (\<lambda>tt. [Fit a (map (\<lambda>i. y ! i) (fst tt)) fh, Predict a]) (split c y)) \<and>
         ((\<forall>s s' tr h. P s = P s' \<longrightarrow> fit_method F s tr h = fit_method F s' tr h) \<and>
          (\<forall>s tr h s1. fit_method F s tr h = Inr s1 \<longrightarrow> P s1 = P s) \<and>
          (\<forall>s yp s2. predict_method F s = Inr (yp, s2) \<longrightarrow> P s2 = P s) \<longrightarrow>
          (\<forall>k. k < length (split c y) \<longrightarrow>
             (\<exists>r s'. window_score F y fh sc (split c y ! k) (heap w ! a) = Inr (r, s') \<and>
                     scores ! k = Some r)))"
proof (intro conjI impI allI)
  have run: "evaluate_loop F a y fh sc 0 (split c y) (np_empty (get_n_splits c y)) w
               = (Inr scores, w')"
    using assms(2) by (simp add: evaluate_def)
  show "calls w' =
          calls w @
          concat (map (\<lambda>tt. [Fit a (map (\<lambda>i. y ! i) (fst tt)) fh, Predict a]) (split c y))"
    using evaluate_loop_calls [OF run] .
  fix k
  assume P: "(\<forall>s s' tr h. P s = P s' \<longrightarrow> fit_method F s tr h = fit_method F s' tr h) \<and>
             (\<forall>s tr h s1. fit_method F s tr h = Inr s1 \<longrightarrow> P s1 = P s) \<and>
             (\<forall>s yp s2. predict_method F s = Inr (yp, s2) \<longrightarrow> P s2 = P s)"
    and k: "k < length (split c y)"
  from P have p1: "\<forall>s s' tr h. P s = P s' \<longrightarrow> fit_method F s tr h = fit_method F s' tr h"
    and p2: "\<forall>s tr h s1. fit_method F s tr h = Inr s1 \<longrightarrow> P s1 = P s"
    and p3: "\<forall>s yp s2. predict_method F s = Inr (yp, s2) \<longrightarrow> P s2 = P s"
    by blast+
  show "\<exists>r s'. window_score F y fh sc (split c y ! k) (heap w ! a) = Inr (r, s') \<and>
               scores ! k = Some r"
    using evaluate_loop_independent [OF p1 p2 p3 assms(1) refl run k] by simp
qed

text \<open>
  C1 as the specification states it, that every window gets a fresh forecaster and no state
  carries over, does not hold: with the warm-start forecaster the second window scores 1 after the first window and 2
  when it is evaluated alone, and both fits are calls on the object at address 0.
\<close>

theorem evaluate_state_carries_over:
  "fst (evaluate warm 0 y5 None (Some cv_two) ''refit'' (Some abs_error) w_warm)
     = Inr [Some 1, Some 1] \<and>
   fst (evaluate warm 0 y5 None (Some cv_second) ''refit'' (Some abs_error) w_warm)
     = Inr [Some 2] \<and>
   calls (snd (evaluate warm 0 y5 None (Some cv_two) ''refit'' (Some abs_error) w_warm))
     = [Fit 0 [1] None, Predict 0, Fit 0 [2] None, Predict 0]"
  by (simp add: evaluate_def evaluate_window_def fit_def predict_def iloc_def np_empty_def
        warm_def abs_error_def y5_def w_warm_def cv_two_def cv_second_def numeral_2_eq_2)

text \<open>The \<open>naive\<close> forecaster, whose fit depends on the object only through the drift.\<close>

theorem evaluate_refits_one_object_witness:
  "0 < length (heap w_naive) \<and>
   evaluate naive 0 y5 None (Some cv_few) ''refit'' (Some abs_error) w_naive
     = (Inr [Some 2, Some 3, None],
        \<lparr>heap = [(0, Some 4)],
           calls = [Fit 0 [1, 2] None, Predict 0, Fit 0 [1, 2, 4] None, Predict 0]\<rparr>) \<and>
   (\<exists>s'. window_score naive y5 None (Some abs_error) ([0, 1], [2]) (0, None) = Inr (2, s')) \<and>
   (\<exists>s'. window_score naive y5 None (Some abs_error) ([0, 1, 2], [3]) (0, None) = Inr (3, s'))"
proof -
  have h1: "0 < length (heap w_naive)"
    by (simp add: w_naive_def)
  have h2: "evaluate naive 0 y5 None (Some cv_few) ''refit'' (Some abs_error) w_naive
              = (Inr [Some 2, Some 3, None],
                 \<lparr>heap = [(0, Some 4)],
                    calls = [Fit 0 [1, 2] None, Predict 0, Fit 0 [1, 2, 4] None, Predict 0]\<rparr>)"
    by (simp add: evaluate_def evaluate_window_def fit_def predict_def iloc_def np_empty_def
          naive_def abs_error_def y5_def w_naive_def cv_few_def numeral_3_eq_3)
  have p: "(\<forall>s s' tr h. fst s = fst s' \<longrightarrow> fit_method naive s tr h = fit_method naive s' tr h) \<and>
           (\<forall>s tr h s1. fit_method naive s tr h = Inr s1 \<longrightarrow> fst s1 = fst s) \<and>
           (\<forall>s yp s2. predict_method naive s = Inr (yp, s2) \<longrightarrow> fst s2 = fst s)"
    by (auto simp: naive_def)
  have each: "\<forall>k. k < length (split cv_few y5) \<longrightarrow>
          (\<exists>r s'. window_score naive y5 None (Some abs_error) (split cv_few y5 ! k)
                     (heap w_naive ! 0) = Inr (r, s') \<and>
                  [Some 2, Some 3, None] ! k = Some r)"
    using evaluate_refits_one_object [OF h1 h2, of fst] p by blast
  have len: "length (split cv_few y5) = 2"
    and n0: "split cv_few y5 ! 0 = ([0, 1], [2])"
    and n1: "split cv_few y5 ! 1 = ([0, 1, 2], [3])"
    and st: "heap w_naive ! 0 = (0, None)"
    by (simp_all add: cv_few_def w_naive_def)
  obtain r0 s0 where
    "window_score naive y5 None (Some abs_error) (split cv_few y5 ! 0) (heap w_naive ! 0)
       = Inr (r0, s0)"
    and "[Some 2, Some 3, None] ! 0 = Some (r0::real)"
    using each [rule_format, of 0] len by auto
  then have k0: "\<exists>s'. window_score naive y5 None (Some abs_error) ([0, 1], [2]) (0, None)
                   = Inr (2, s')"
    using n0 st by auto
  obtain r1 s1 where
    "window_score naive y5 None (Some abs_error) (split cv_few y5 ! 1) (heap w_naive ! 0)
       = Inr (r1, s1)"
    and "[Some 2, Some 3, None] ! 1 = Some (r1::real)"
    using each [rule_format, of 1] len by auto
  then have k1: "\<exists>s'. window_score naive y5 None (Some abs_error) ([0, 1, 2], [3]) (0, None)
                   = Inr (3, s')"
    using n1 st by auto
  show ?thesis using h1 h2 k0 k1 by blast
qed

subsection \<open>The loop of evaluate and the reference functions\<close>

lemma evaluate_window_fst:
  assumes "a < length (heap w)"
  shows "fst (evaluate_window F a y fh sc tt w)
           = map_sum id fst (window_score F y fh sc tt (heap w ! a))"
  using assms
  by (auto simp: evaluate_window_def window_score_def fit_def predict_def
           split: sum.splits prod.splits option.splits)

lemma evaluate_loop_fst:
  "a < length (heap w) \<Longrightarrow>
     fst (evaluate_loop F a y fh sc i ws scores w)
       = scores_from F y fh sc i ws scores (heap w ! a)"
proof (induction ws arbitrary: i scores w)
  case Nil
  show ?case by simp
next
  case (Cons tt ws)
  obtain r w1 where step: "evaluate_window F a y fh sc tt w = (r, w1)"
    by (cases "evaluate_window F a y fh sc tt w")
  show ?case
  proof (cases r)
    case (Inl e)
    have "map_sum id fst (window_score F y fh sc tt (heap w ! a)) = Inl e"
      using evaluate_window_fst [OF Cons.prems, of F y fh sc tt] step Inl by simp
    then have "window_score F y fh sc tt (heap w ! a) = Inl e"
      by (cases "window_score F y fh sc tt (heap w ! a)") simp_all
    then show ?thesis using step Inl by simp
  next
    case (Inr v)
    obtain s2 where ws: "window_score F y fh sc tt (heap w ! a) = Inr (v, s2)"
      and s2: "heap w1 ! a = s2"
      using evaluate_window_as_window_score [OF Cons.prems, of F y fh sc tt v w1] step Inr
      by auto
    have len: "a < length (heap w1)"
      using evaluate_window_heap_length [of F a y fh sc tt w] step Cons.prems by simp
    show ?thesis
      using step Inr ws s2 Cons.IH [OF len, of "Suc i"] by simp
  qed
qed

lemma evaluate_loop_length:
  "evaluate_loop F a y fh sc i ws scores w = (Inr scores', w') \<Longrightarrow>
     length scores' = length scores"
proof (induction ws arbitrary: i scores w)
  case Nil
  then show ?case by simp
next
  case (Cons tt ws)
  then show ?case
    by (auto split: prod.splits sum.splits if_splits)
qed

lemma evaluate_loop_cells:
  "a < length (heap w) \<Longrightarrow>
   evaluate_loop F a y fh sc i ws scores w = (Inr scores', w') \<Longrightarrow> k < length ws \<Longrightarrow>
     \<exists>s r s'. state_after F y fh sc (take k ws) (heap w ! a) = Inr s \<and>
              window_score F y fh sc (ws ! k) s = Inr (r, s') \<and>
              scores' ! (i + k) = Some r"
proof (induction ws arbitrary: i scores w k)
  case Nil
  then show ?case by simp
next
  case (Cons tt ws)
  from Cons.prems(2) obtain r0 w1 where
    step: "evaluate_window F a y fh sc tt w = (Inr r0, w1)"
    and i: "i < length scores"
    and rest: "evaluate_loop F a y fh sc (Suc i) ws (scores[i := Some r0]) w1 = (Inr scores', w')"
    by (auto split: prod.splits sum.splits if_splits)
  obtain s2 where here: "window_score F y fh sc tt (heap w ! a) = Inr (r0, s2)"
    and s2: "heap w1 ! a = s2"
    using evaluate_window_as_window_score [OF Cons.prems(1) step] by blast
  have len1: "a < length (heap w1)"
    using evaluate_window_heap_length [of F a y fh sc tt w] step Cons.prems(1) by simp
  show ?case
  proof (cases k)
    case 0
    have "scores' ! i = (scores[i := Some r0]) ! i"
      using evaluate_loop_prefix_kept [OF rest, of i] by simp
    then have "scores' ! i = Some r0" using i by simp
    then show ?thesis using 0 here by simp
  next
    case (Suc k')
    then have k': "k' < length ws" using Cons.prems(3) by simp
    obtain s r s' where
      "state_after F y fh sc (take k' ws) (heap w1 ! a) = Inr s"
      "window_score F y fh sc (ws ! k') s = Inr (r, s')"
      "scores' ! (Suc i + k') = Some r"
      using Cons.IH [OF len1 rest k'] by blast
    then show ?thesis using Suc here s2 by simp
  qed
qed

subsection \<open>The window splitter\<close>

lemma length_windows_from:
  "0 < de \<Longrightarrow>
     length (windows_from n h ds de s e) = (if e + h \<le> n then (n - e - h) div de + 1 else 0)"
proof (induction n h ds de s e rule: windows_from.induct)
  case (1 n h ds de s e)
  show ?case
  proof (cases "e + h \<le> n")
    case False
    then show ?thesis by (simp add: windows_from.simps [of n h ds de s e])
  next
    case True
    have unfold: "length (windows_from n h ds de s e)
                    = Suc (length (windows_from n h ds de (s + ds) (e + de)))"
      using True "1.prems" by (simp add: windows_from.simps [of n h ds de s e])
    have ih: "length (windows_from n h ds de (s + ds) (e + de))
                = (if e + de + h \<le> n then (n - (e + de) - h) div de + 1 else 0)"
      using "1.IH" True "1.prems" by simp
    show ?thesis
    proof (cases "e + de + h \<le> n")
      case next_fits: True
      define m where "m = n - (e + de) - h"
      have eq: "n - e - h = m + de"
        using next_fits by (simp add: m_def)
      have "(m + de) div de = m div de + 1"
        using "1.prems" by simp
      then have "(n - e - h) div de = m div de + 1"
        by (simp only: eq)
      then show ?thesis using unfold ih next_fits True by (simp add: m_def)
    next
      case False
      then have "n - e - h < de" using True by simp
      then have "(n - e - h) div de = 0" by simp
      then show ?thesis using unfold ih False True by simp
    qed
  qed
qed

lemma windows_from_in_range:
  "list_all (\<lambda>tt. list_all (\<lambda>i. i < n) (fst tt) \<and> list_all (\<lambda>i. i < n) (snd tt))
     (windows_from n h ds de s e)"
proof (induction n h ds de s e rule: windows_from.induct)
  case (1 n h ds de s e)
  show ?case
  proof (cases "0 < de \<and> e + h \<le> n")
    case False
    then show ?thesis by (auto simp: windows_from.simps [of n h ds de s e])
  next
    case True
    then have "list_all (\<lambda>i. i < n) [s..<e]" "list_all (\<lambda>i. i < n) [e..<e + h]"
      by (simp_all add: list_all_iff)
    then show ?thesis
      using True "1.IH" by (simp add: windows_from.simps [of n h ds de s e])
  qed
qed

lemma end_stride_pos: "valid_config cfg \<Longrightarrow> 0 < end_stride cfg"
  by (cases "kind cfg") (simp_all add: valid_config_def end_stride_def)

lemma n_splits_length_windows:
  "valid_config cfg \<Longrightarrow> n_splits n cfg = length (windows n cfg)"
  by (simp add: n_splits_def windows_def length_windows_from end_stride_pos)

lemma evaluate_WindowSplitter_total:
  assumes "valid_config cfg"
    and "\<forall>s tr h. \<exists>s'. fit_method F s tr h = Inr s'"
    and "\<forall>s. \<exists>r. predict_method F s = Inr r"
    and "\<forall>te yp. \<exists>r. f te yp = Inr r"
  shows "\<exists>scores w'.
           evaluate F a y fh (Some (WindowSplitter cfg)) strat (Some f) w = (Inr scores, w') \<and>
           length scores = length (windows (length y) cfg) \<and>
           (\<forall>i. i < length scores \<longrightarrow> scores ! i \<noteq> None)"
proof -
  let ?ws = "windows (length y) cfg"
  let ?n = "n_splits (length y) cfg"
  have n: "?n = length ?ws"
    using n_splits_length_windows [OF assms(1)] .
  have range: "list_all (\<lambda>tt. list_all (\<lambda>i. i < length y) (fst tt) \<and>
                              list_all (\<lambda>i. i < length y) (snd tt)) ?ws"
    unfolding windows_def by (rule windows_from_in_range)
  have room: "0 + length ?ws \<le> length (np_empty ?n)"
    using n by (simp add: np_empty_def)
  obtain scores w' where
    run: "evaluate_loop F a y fh (Some f) 0 ?ws (np_empty ?n) w = (Inr scores, w')"
    and len: "length scores = length (np_empty ?n)"
    and new: "\<forall>j. 0 \<le> j \<and> j < 0 + length ?ws \<longrightarrow> scores ! j \<noteq> None"
    using evaluate_loop_total_fits [OF assms(2,3,4) range room, of a fh w] by blast
  have "evaluate F a y fh (Some (WindowSplitter cfg)) strat (Some f) w = (Inr scores, w')"
    using run by (simp add: evaluate_def WindowSplitter_def)
  moreover have "length scores = length ?ws"
    using len n by (simp add: np_empty_def)
  moreover have "\<forall>i. i < length scores \<longrightarrow> scores ! i \<noteq> None"
    using new \<open>length scores = length ?ws\<close> by simp
  ultimately show ?thesis by blast
qed

text \<open>
  C6. For every strategy and every valid configuration, the closed form \<open>n_splits\<close> is the
  length of the generated sequence; the sequence that \<open>generate\<close> returns is that sequence
  and has at least one window. So whenever \<^verbatim>\<open>evaluate\<close>, given the splitter, returns, it
  returns an array of exactly that length, it has called \<^verbatim>\<open>fit\<close> and \<^verbatim>\<open>predict\<close> once per
  generated window, in order, and cell \<open>k\<close> of the array is the score of the \<open>k\<close>-th
  generated window, computed on the forecaster in the state that the windows before it left.
  With collaborators that do not raise, \<^verbatim>\<open>evaluate\<close> does return.
\<close>

theorem n_splits_matches_windows:
  assumes "valid_config cfg"
  shows "n_splits (length y) cfg = length (windows (length y) cfg) \<and>
         get_n_splits (WindowSplitter cfg) y = length (split (WindowSplitter cfg) y) \<and>
         (\<forall>plan. generate (length y) cfg = Inr plan \<longrightarrow>
                   plan = windows (length y) cfg \<and> 0 < length plan) \<and>
         (evaluate F a y fh (Some (WindowSplitter cfg)) strat sc w = (Inr scores, w') \<longrightarrow>
            length scores = length (windows (length y) cfg) \<and>
            calls w' =
              calls w @
              concat (map (\<lambda>tt. [Fit a (map (\<lambda>i. y ! i) (fst tt)) fh, Predict a])
                        (windows (length y) cfg)) \<and>
            (a < length (heap w) \<longrightarrow>
               scores_from F y fh sc 0 (windows (length y) cfg)
                 (np_empty (length (windows (length y) cfg))) (heap w ! a) = Inr scores \<and>
               (\<forall>k. k < length (windows (length y) cfg) \<longrightarrow>
                  (\<exists>s r s'.
                     state_after F y fh sc (take k (windows (length y) cfg)) (heap w ! a)
                       = Inr s \<and>
                     window_score F y fh sc (windows (length y) cfg ! k) s = Inr (r, s') \<and>
                     scores ! k = Some r)))) \<and>
         ((\<forall>s tr h. \<exists>s'. fit_method F s tr h = Inr s') \<and>
          (\<forall>s. \<exists>r. predict_method F s = Inr r) \<and>
          (\<forall>te yp. \<exists>r. f te yp = Inr r) \<longrightarrow>
          (\<exists>scores w'.
             evaluate F a y fh (Some (WindowSplitter cfg)) strat (Some f) w = (Inr scores, w') \<and>
             length scores = length (windows (length y) cfg) \<and>
             (\<forall>i. i < length scores \<longrightarrow> scores ! i \<noteq> None)))"
proof -
  let ?ws = "windows (length y) cfg"
  have n: "n_splits (length y) cfg = length ?ws"
    using n_splits_length_windows [OF assms] .
  have same: "get_n_splits (WindowSplitter cfg) y = length (split (WindowSplitter cfg) y)"
    using n by (simp add: WindowSplitter_def)
  have plan: "\<forall>plan. generate (length y) cfg = Inr plan \<longrightarrow> plan = ?ws \<and> 0 < length plan"
  proof (intro allI impI)
    fix plan
    assume g: "generate (length y) cfg = Inr plan"
    then have enough: "first_train_end cfg + horizon_length cfg \<le> length y"
      and eq: "plan = ?ws"
      by (auto simp: generate_def split: if_splits)
    have "0 < n_splits (length y) cfg"
      using enough by (simp add: n_splits_def)
    then have "0 < length ?ws" using n by simp
    then show "plan = ?ws \<and> 0 < length plan" using eq by simp
  qed
  have partial: "evaluate F a y fh (Some (WindowSplitter cfg)) strat sc w = (Inr scores, w') \<longrightarrow>
            length scores = length ?ws \<and>
            calls w' =
              calls w @
              concat (map (\<lambda>tt. [Fit a (map (\<lambda>i. y ! i) (fst tt)) fh, Predict a]) ?ws) \<and>
            (a < length (heap w) \<longrightarrow>
               scores_from F y fh sc 0 ?ws (np_empty (length ?ws)) (heap w ! a) = Inr scores \<and>
               (\<forall>k. k < length ?ws \<longrightarrow>
                  (\<exists>s r s'.
                     state_after F y fh sc (take k ?ws) (heap w ! a) = Inr s \<and>
                     window_score F y fh sc (?ws ! k) s = Inr (r, s') \<and>
                     scores ! k = Some r)))"
  proof (intro impI conjI allI)
    assume ev: "evaluate F a y fh (Some (WindowSplitter cfg)) strat sc w = (Inr scores, w')"
    then have run: "evaluate_loop F a y fh sc 0 ?ws (np_empty (length ?ws)) w = (Inr scores, w')"
      using n by (simp add: evaluate_def WindowSplitter_def)
    show "length scores = length ?ws"
      using evaluate_loop_length [OF run] by (simp add: np_empty_def)
    show "calls w' =
            calls w @ concat (map (\<lambda>tt. [Fit a (map (\<lambda>i. y ! i) (fst tt)) fh, Predict a]) ?ws)"
      using evaluate_loop_calls [OF run] .
    {
      assume live: "a < length (heap w)"
      show "scores_from F y fh sc 0 ?ws (np_empty (length ?ws)) (heap w ! a) = Inr scores"
        using evaluate_loop_fst [OF live, of F y fh sc 0 ?ws "np_empty (length ?ws)"] run
        by simp
      fix k
      assume "k < length ?ws"
      then show "\<exists>s r s'.
                   state_after F y fh sc (take k ?ws) (heap w ! a) = Inr s \<and>
                   window_score F y fh sc (?ws ! k) s = Inr (r, s') \<and>
                   scores ! k = Some r"
        using evaluate_loop_cells [OF live run, of k] by simp
    }
  qed
  have total: "(\<forall>s tr h. \<exists>s'. fit_method F s tr h = Inr s') \<and>
          (\<forall>s. \<exists>r. predict_method F s = Inr r) \<and>
          (\<forall>te yp. \<exists>r. f te yp = Inr r) \<longrightarrow>
          (\<exists>scores w'.
             evaluate F a y fh (Some (WindowSplitter cfg)) strat (Some f) w = (Inr scores, w') \<and>
             length scores = length ?ws \<and>
             (\<forall>i. i < length scores \<longrightarrow> scores ! i \<noteq> None))"
  proof
    assume t: "(\<forall>s tr h. \<exists>s'. fit_method F s tr h = Inr s') \<and>
               (\<forall>s. \<exists>r. predict_method F s = Inr r) \<and>
               (\<forall>te yp. \<exists>r. f te yp = Inr r)"
    then have t1: "\<forall>s tr h. \<exists>s'. fit_method F s tr h = Inr s'"
      and t2: "\<forall>s. \<exists>r. predict_method F s = Inr r"
      and t3: "\<forall>te yp. \<exists>r. f te yp = Inr r"
      by blast+
    show "\<exists>scores w'.
            evaluate F a y fh (Some (WindowSplitter cfg)) strat (Some f) w = (Inr scores, w') \<and>
            length scores = length ?ws \<and>
            (\<forall>i. i < length scores \<longrightarrow> scores ! i \<noteq> None)"
      using evaluate_WindowSplitter_total [OF assms t1 t2 t3] .
  qed
  show ?thesis using n same plan partial total by blast
qed

lemma windows_sliding_2_1_1:
  "windows 5 sliding_2_1_1 = [([0, 1], [2]), ([1, 2], [3]), ([2, 3], [4])]"
  by (simp add: windows_def sliding_2_1_1_def start_stride_def end_stride_def
        first_train_end_def windows_from.simps upt_rec)

lemma run_sliding_2_1_1:
  "evaluate naive 0 y5 None (Some (WindowSplitter sliding_2_1_1)) ''refit'' (Some abs_error)
     w_naive
     = (Inr [Some 2, Some 3, Some 4],
        \<lparr>heap = [(0, Some 7)],
           calls = [Fit 0 [1, 2] None, Predict 0, Fit 0 [2, 4] None, Predict 0,
                    Fit 0 [4, 7] None, Predict 0]\<rparr>)"
proof -
  have len5: "length y5 = 5"
    by (simp add: y5_def)
  have n: "n_splits 5 sliding_2_1_1 = 3"
    by (simp add: n_splits_def sliding_2_1_1_def first_train_end_def end_stride_def)
  show ?thesis
    by (simp add: evaluate_def WindowSplitter_def len5 n windows_sliding_2_1_1)
      (simp add: evaluate_window_def fit_def predict_def iloc_def np_empty_def naive_def
         abs_error_def y5_def w_naive_def numeral_3_eq_3)
qed

text \<open>
  A sliding split of the series \<open>y5\<close> (window 2, step 1, horizon 1: three windows), and the
  blocked split of a series of length 100 (window 20, horizon 5: four windows).
\<close>

theorem n_splits_matches_windows_witness:
  "valid_config sliding_2_1_1 \<and>
   n_splits (length y5) sliding_2_1_1 = 3 \<and>
   generate (length y5) sliding_2_1_1 = Inr [([0, 1], [2]), ([1, 2], [3]), ([2, 3], [4])] \<and>
   fst (evaluate naive 0 y5 None (Some (WindowSplitter sliding_2_1_1)) ''refit''
          (Some abs_error) w_naive) = Inr [Some 2, Some 3, Some 4] \<and>
   0 < length (heap w_naive) \<and>
   scores_from naive y5 None (Some abs_error) 0 [([0, 1], [2]), ([1, 2], [3]), ([2, 3], [4])]
     (np_empty 3) (0, None) = Inr [Some 2, Some 3, Some 4] \<and>
   (\<exists>s s'. state_after naive y5 None (Some abs_error) [([0, 1], [2]), ([1, 2], [3])] (0, None)
              = Inr s \<and>
            window_score naive y5 None (Some abs_error) ([2, 3], [4]) s = Inr (4, s')) \<and>
   valid_config blocked_20_5 \<and>
   n_splits (length (replicate 100 (0::real))) blocked_20_5 = 4 \<and>
   length (windows (length (replicate 100 (0::real))) blocked_20_5) = 4"
proof -
  have v: "valid_config sliding_2_1_1"
    by (simp add: valid_config_def sliding_2_1_1_def)
  have len5: "length y5 = 5"
    by (simp add: y5_def)
  have live: "0 < length (heap w_naive)" and st: "heap w_naive ! 0 = (0, None)"
    by (simp_all add: w_naive_def)
  have g: "generate (length y5) sliding_2_1_1 = Inr [([0, 1], [2]), ([1, 2], [3]), ([2, 3], [4])]"
    by (simp add: generate_def len5 windows_sliding_2_1_1)
      (simp add: sliding_2_1_1_def first_train_end_def)
  note sliding =
    n_splits_matches_windows [OF v, of y5 naive 0 None "''refit''" "Some abs_error" w_naive
      "[Some 2, Some 3, Some 4]"
      "\<lparr>heap = [(0, Some 7)],
         calls = [Fit 0 [1, 2] None, Predict 0, Fit 0 [2, 4] None, Predict 0,
                  Fit 0 [4, 7] None, Predict 0]\<rparr>" abs_error]
  have n: "n_splits (length y5) sliding_2_1_1 = 3"
    using sliding by (simp add: len5 windows_sliding_2_1_1)
  have cells: "scores_from naive y5 None (Some abs_error) 0 (windows (length y5) sliding_2_1_1)
                 (np_empty (length (windows (length y5) sliding_2_1_1))) (heap w_naive ! 0)
                 = Inr [Some 2, Some 3, Some 4]"
    and each: "\<forall>k. k < length (windows (length y5) sliding_2_1_1) \<longrightarrow>
          (\<exists>s r s'.
             state_after naive y5 None (Some abs_error)
               (take k (windows (length y5) sliding_2_1_1)) (heap w_naive ! 0) = Inr s \<and>
             window_score naive y5 None (Some abs_error)
               (windows (length y5) sliding_2_1_1 ! k) s = Inr (r, s') \<and>
             [Some 2, Some 3, Some 4] ! k = Some r)"
    using sliding run_sliding_2_1_1 live by blast+
  have l3: "length [([0::nat, 1], [2::nat]), ([1, 2], [3]), ([2, 3], [4])] = 3"
    by simp
  have c: "scores_from naive y5 None (Some abs_error) 0
             [([0, 1], [2]), ([1, 2], [3]), ([2, 3], [4])] (np_empty 3) (0, None)
             = Inr [Some 2, Some 3, Some 4]"
    using cells unfolding len5 windows_sliding_2_1_1 st l3 .
  obtain s r s' where
    "state_after naive y5 None (Some abs_error)
       (take 2 (windows (length y5) sliding_2_1_1)) (heap w_naive ! 0) = Inr s"
    and "window_score naive y5 None (Some abs_error)
           (windows (length y5) sliding_2_1_1 ! 2) s = Inr (r, s')"
    and "[Some 2, Some 3, Some 4] ! 2 = Some (r::real)"
    using each [rule_format, of 2] by (auto simp: len5 windows_sliding_2_1_1)
  then have third: "\<exists>s s'.
      state_after naive y5 None (Some abs_error) [([0, 1], [2]), ([1, 2], [3])] (0, None) = Inr s \<and>
      window_score naive y5 None (Some abs_error) ([2, 3], [4]) s = Inr (4, s')"
    by (auto simp: len5 windows_sliding_2_1_1 st)
  have vb: "valid_config blocked_20_5"
    by (simp add: valid_config_def blocked_20_5_def)
  have nb: "n_splits (length (replicate 100 (0::real))) blocked_20_5 = 4"
    by (simp add: n_splits_def blocked_20_5_def first_train_end_def end_stride_def)
  have "length (windows (length (replicate 100 (0::real))) blocked_20_5) = 4"
    using n_splits_matches_windows [OF vb, of "replicate 100 0", THEN conjunct1] nb by simp
  then show ?thesis using v n g live c third vb nb by (simp add: run_sliding_2_1_1)
qed

lemma windows_initial_20_5_5:
  "windows 50 initial_20_5_5 =
     [([0..<20], [20..<25]), ([0..<25], [25..<30]), ([0..<30], [30..<35]),
      ([0..<35], [35..<40]), ([0..<40], [40..<45]), ([0..<45], [45..<50])]"
  by (simp add: windows_def initial_20_5_5_def start_stride_def end_stride_def
        first_train_end_def windows_from.simps)

subsection \<open>The strategy argument\<close>

text \<open>
  C5, at its scenario. \<^verbatim>\<open>evaluate\<close> holds the check of the strategy as a comment only, so
  \<open>strategy\<close> is never read: on a series of length 50 with the sliding-with-initial-window
  split (initial window 20, step 5, horizon 5), \<^verbatim>\<open>evaluate\<close> called with \<^verbatim>\<open>strategy="refit"\<close>
  raises nothing and returns six scores, one per window.
\<close>

theorem evaluate_refit_on_initial_window_split:
  "length y50 = 50 \<and>
   length (split (WindowSplitter initial_20_5_5) y50) = 6 \<and>
   (\<exists>scores w'.
      evaluate naive 0 y50 None (Some (WindowSplitter initial_20_5_5)) ''refit''
        (Some abs_error) w_naive = (Inr scores, w') \<and>
      length scores = 6 \<and> list_all (\<lambda>c. c \<noteq> None) scores)"
proof -
  have len: "length y50 = 50"
    by (simp add: y50_def)
  have v: "valid_config initial_20_5_5"
    by (simp add: valid_config_def initial_20_5_5_def)
  have six: "length (windows 50 initial_20_5_5) = 6"
    by (simp add: windows_initial_20_5_5)
  obtain scores w' where
    run: "evaluate naive 0 y50 None (Some (WindowSplitter initial_20_5_5)) ''refit''
            (Some abs_error) w_naive = (Inr scores, w')"
    and n: "length scores = length (windows (length y50) initial_20_5_5)"
    and written: "\<forall>i. i < length scores \<longrightarrow> scores ! i \<noteq> None"
    using evaluate_WindowSplitter_total [OF v, of naive abs_error 0 y50 None "''refit''" w_naive]
    by (auto simp: naive_def abs_error_def)
  have "list_all (\<lambda>c. c \<noteq> None) scores"
    using written by (simp add: list_all_length)
  then show ?thesis
    using len six run n by (auto simp: WindowSplitter_def)
qed

text \<open>
  C3, at two expanding windows. Called with \<^verbatim>\<open>strategy="update"\<close>, \<^verbatim>\<open>evaluate\<close> calls \<^verbatim>\<open>fit\<close>
  for the second window as well, on the whole train subset of that window; it makes no call
  other than \<^verbatim>\<open>fit\<close> and \<^verbatim>\<open>predict\<close>, and does exactly what it does with
  \<^verbatim>\<open>strategy="refit"\<close>.
\<close>

theorem evaluate_update_fits_every_window:
  "evaluate naive 0 y5 None (Some cv_expanding) ''update'' (Some abs_error) w_naive
     = (Inr [Some 2, Some 3],
        \<lparr>heap = [(0, Some 4)],
           calls = [Fit 0 [1, 2] None, Predict 0, Fit 0 [1, 2, 4] None, Predict 0]\<rparr>) \<and>
   evaluate naive 0 y5 None (Some cv_expanding) ''update'' (Some abs_error) w_naive
     = evaluate naive 0 y5 None (Some cv_expanding) ''refit'' (Some abs_error) w_naive"
  by (simp add: evaluate_def evaluate_window_def fit_def predict_def iloc_def np_empty_def
        naive_def abs_error_def y5_def w_naive_def cv_expanding_def numeral_2_eq_2)

subsection \<open>The store during ForecastingGridSearchCV.fit\<close>

lemma evaluate_heap_length:
  "length (heap (snd (evaluate F a y fh c strat sc w))) = length (heap w)"
  by (cases c) (simp_all add: evaluate_def evaluate_loop_heap_length)

lemma evaluate_heap_other:
  "b \<noteq> a \<Longrightarrow> heap (snd (evaluate F a y fh c strat sc w)) ! b = heap w ! b"
  by (cases c) (simp_all add: evaluate_def evaluate_loop_heap_other)

lemma fit_params_heap:
  assumes "b < length (heap w)"
  shows "heap (snd (fit_params F self y fh p w)) ! b = heap w ! b \<and>
         length (heap w) \<le> length (heap (snd (fit_params F self y fh p w)))"
proof (cases "clone F (forecaster self) w")
  case (Pair r1 w1)
  show ?thesis
  proof (cases r1)
    case (Inl e)
    then show ?thesis
      using Pair clone_heap_old [OF assms, of F "forecaster self"]
      by (auto simp: fit_params_def clone_def split: sum.splits)
  next
    case (Inr a)
    have a: "a = length (heap w)" and len1: "length (heap w1) = Suc (length (heap w))"
      using clone_Inr Pair Inr by blast+
    have old1: "heap w1 ! b = heap w ! b"
      using clone_heap_old [OF assms, of F "forecaster self"] Pair by simp
    have ne: "b \<noteq> a" using a assms by simp
    obtain r2 w2 where sp: "set_params F a p w1 = (r2, w2)"
      by (cases "set_params F a p w1")
    have old2: "heap w2 ! b = heap w ! b"
      using set_params_heap_other [OF ne, of F p w1] sp old1 by simp
    have len2: "length (heap w2) = Suc (length (heap w))"
      using set_params_heap_length [of F a p w1] sp len1 by simp
    show ?thesis
    proof (cases r2)
      case (Inl e)
      then show ?thesis
        using Pair Inr sp old2 len2 by (simp add: fit_params_def)
    next
      case (Inr u)
      obtain r3 w3 where ev:
        "evaluate F a y fh (cv self) (strategy self) (scoring self) w2 = (r3, w3)"
        by (cases "evaluate F a y fh (cv self) (strategy self) (scoring self) w2")
      have old3: "heap w3 ! b = heap w ! b"
        using evaluate_heap_other [OF ne, of F y fh "cv self" "strategy self" "scoring self" w2]
          ev old2 by simp
      have len3: "length (heap w3) = Suc (length (heap w))"
        using evaluate_heap_length [of F a y fh "cv self" "strategy self" "scoring self" w2]
          ev len2 by simp
      show ?thesis
        using Pair \<open>r1 = Inr a\<close> sp Inr ev old3 len3
        by (cases r3) (simp_all add: fit_params_def)
    qed
  qed
qed

lemma fit_loop_heap:
  "b < length (heap w) \<Longrightarrow>
     heap (snd (fit_loop F self y fh i ps res w)) ! b = heap w ! b"
proof (induction ps arbitrary: i res w)
  case Nil
  show ?case by simp
next
  case (Cons p ps)
  obtain r w1 where step: "fit_params F self y fh p w = (r, w1)"
    by (cases "fit_params F self y fh p w")
  have old: "heap w1 ! b = heap w ! b" and len: "b < length (heap w1)"
    using fit_params_heap [OF Cons.prems, of F self y fh p] step Cons.prems by simp_all
  show ?case
    using step old Cons.IH [OF len, of "Suc i"] by (cases r) simp_all
qed

text \<open>
  C9. \<^verbatim>\<open>ForecastingGridSearchCV.fit\<close> never writes to the object \<^verbatim>\<open>self.forecaster\<close>:
  \<^verbatim>\<open>set_params\<close>, \<^verbatim>\<open>fit\<close> and \<^verbatim>\<open>predict\<close> are called on clones, which are new objects. Whether
  \<^verbatim>\<open>fit\<close> returns or raises, the template and every other object that existed before the call
  are in the state they were in; and what \<^verbatim>\<open>fit\<close> returns, when it returns, is \<^verbatim>\<open>self\<close>.
\<close>

theorem fit_keeps_template:
  assumes "forecaster self < length (heap w)"
  shows "heap (snd (ForecastingGridSearchCV_fit F self y fh X w)) ! forecaster self
           = heap w ! forecaster self \<and>
         (\<forall>b. b < length (heap w) \<longrightarrow>
            heap (snd (ForecastingGridSearchCV_fit F self y fh X w)) ! b = heap w ! b) \<and>
         (\<forall>r w'. ForecastingGridSearchCV_fit F self y fh X w = (Inr r, w') \<longrightarrow> r = self)"
proof -
  have same_heap: "heap (snd (ForecastingGridSearchCV_fit F self y fh X w))
                     = heap (snd (fit_cv_results F self y fh w))"
    by (simp add: ForecastingGridSearchCV_fit_def split: prod.splits sum.splits)
  have old: "\<forall>b. b < length (heap w) \<longrightarrow>
               heap (snd (ForecastingGridSearchCV_fit F self y fh X w)) ! b = heap w ! b"
    using fit_loop_heap [of _ w F self y fh 0 "param_grid self"]
    by (simp add: same_heap fit_cv_results_def)
  have self: "\<forall>r w'. ForecastingGridSearchCV_fit F self y fh X w = (Inr r, w') \<longrightarrow> r = self"
    by (auto simp: ForecastingGridSearchCV_fit_def split: prod.splits sum.splits)
  show ?thesis using old self assms by blast
qed


subsection \<open>The loop over the parameter grid\<close>

lemma fit_params_fst:
  assumes "forecaster self < length (heap w)"
  shows "fst (fit_params F self y fh p w)
           = config_score F y fh (cv self) (scoring self) (heap w ! forecaster self) p"
proof (cases "clone_method F (heap w ! forecaster self)")
  case (Inl e)
  then show ?thesis by (simp add: fit_params_def clone_def config_score_def)
next
  case (Inr s0)
  let ?a = "length (heap w)"
  let ?w1 = "w\<lparr>heap := heap w @ [s0],
               calls := calls w @ [Clone (forecaster self) (length (heap w))]\<rparr>"
  have cl: "clone F (forecaster self) w = (Inr ?a, ?w1)"
    using Inr by (simp add: clone_def)
  show ?thesis
  proof (cases "set_params_method F s0 p")
    case (Inl e)
    then show ?thesis
      using cl Inr by (simp add: fit_params_def set_params_def config_score_def)
  next
    case s1: (Inr s1)
    let ?w2 = "?w1\<lparr>heap := (heap ?w1)[?a := s1], calls := calls ?w1 @ [SetParams ?a p]\<rparr>"
    have sp: "set_params F ?a p ?w1 = (Inr (), ?w2)"
      using s1 by (simp add: set_params_def)
    have a2: "?a < length (heap ?w2)" and at: "heap ?w2 ! ?a = s1"
      by simp_all
    show ?thesis
    proof (cases "cv self")
      case None
      then show ?thesis
        using cl sp Inr s1 by (simp add: fit_params_def evaluate_def config_score_def)
    next
      case (Some c)
      obtain r3 w3 where ev:
        "evaluate F ?a y fh (cv self) (strategy self) (scoring self) ?w2 = (r3, w3)"
        by (cases "evaluate F ?a y fh (cv self) (strategy self) (scoring self) ?w2")
      have "fst (evaluate F ?a y fh (cv self) (strategy self) (scoring self) ?w2)
              = scores_from F y fh (scoring self) 0 (split c y) (np_empty (get_n_splits c y)) s1"
        using evaluate_loop_fst [OF a2, of F y fh "scoring self" 0 "split c y"] at Some
        by (simp add: evaluate_def)
      then have r3: "scores_from F y fh (scoring self) 0 (split c y)
                       (np_empty (get_n_splits c y)) s1 = r3"
        using ev by simp
      have "fst (fit_params F self y fh p w)
              = (case r3 of Inl e \<Rightarrow> Inl e | Inr scores \<Rightarrow> Inr (np_mean scores))"
        using cl sp ev by (cases r3) (simp_all add: fit_params_def)
      moreover have "config_score F y fh (cv self) (scoring self) (heap w ! forecaster self) p
              = (case r3 of Inl e \<Rightarrow> Inl e | Inr scores \<Rightarrow> Inr (np_mean scores))"
        using Inr s1 Some r3 by (simp add: config_score_def)
      ultimately show ?thesis by simp
    qed
  qed
qed

lemma fit_loop_results:
  "forecaster self < length (heap w) \<Longrightarrow>
   fit_loop F self y fh i ps res w = (Inr res', w') \<Longrightarrow>
     length res' = length res \<and>
     (\<forall>j. j < i \<longrightarrow> res' ! j = res ! j) \<and>
     (\<forall>k. k < length ps \<longrightarrow>
        config_score F y fh (cv self) (scoring self) (heap w ! forecaster self) (ps ! k)
          = Inr (res' ! (i + k)))"
proof (induction ps arbitrary: i res w)
  case Nil
  then show ?case by simp
next
  case (Cons p ps)
  from Cons.prems(2) obtain m w1 where
    step: "fit_params F self y fh p w = (Inr m, w1)"
    and i: "i < length res"
    and rest: "fit_loop F self y fh (Suc i) ps (res[i := m]) w1 = (Inr res', w')"
    by (auto split: prod.splits sum.splits if_splits)
  have here: "config_score F y fh (cv self) (scoring self) (heap w ! forecaster self) p = Inr m"
    using fit_params_fst [OF Cons.prems(1), of F y fh p] step by simp
  have old: "heap w1 ! forecaster self = heap w ! forecaster self"
    and len: "forecaster self < length (heap w1)"
    using fit_params_heap [OF Cons.prems(1), of F self y fh p] step Cons.prems(1) by simp_all
  have ih: "length res' = length (res[i := m])"
    "\<forall>j. j < Suc i \<longrightarrow> res' ! j = (res[i := m]) ! j"
    "\<forall>k. k < length ps \<longrightarrow>
        config_score F y fh (cv self) (scoring self) (heap w1 ! forecaster self) (ps ! k)
          = Inr (res' ! (Suc i + k))"
    using Cons.IH [OF len rest] by blast+
  have at_i: "res' ! i = m"
    using ih(2) i by simp
  have kept: "\<forall>j. j < i \<longrightarrow> res' ! j = res ! j"
  proof (intro allI impI)
    fix j assume "j < i"
    then have "res' ! j = (res[i := m]) ! j" and "i \<noteq> j" using ih(2) by simp_all
    then show "res' ! j = res ! j" by simp
  qed
  have each: "\<forall>k. k < length (p # ps) \<longrightarrow>
        config_score F y fh (cv self) (scoring self) (heap w ! forecaster self) ((p # ps) ! k)
          = Inr (res' ! (i + k))"
  proof (intro allI impI)
    fix k assume k: "k < length (p # ps)"
    show "config_score F y fh (cv self) (scoring self) (heap w ! forecaster self) ((p # ps) ! k)
            = Inr (res' ! (i + k))"
    proof (cases k)
      case 0
      then show ?thesis using here at_i by simp
    next
      case (Suc k')
      then have "k' < length ps" using k by simp
      then show ?thesis using ih(3) old Suc by simp
    qed
  qed
  show ?case using ih(1) kept each by simp
qed

lemma fit_params_calls:
  assumes "cv self = Some c"
    and "fit_params F self y fh p w = (Inr m, w1)"
  shows "length (heap w1) = Suc (length (heap w)) \<and>
         calls w1 =
           calls w @
           Clone (forecaster self) (length (heap w)) # SetParams (length (heap w)) p #
           concat (map (\<lambda>tt. [Fit (length (heap w)) (map (\<lambda>i. y ! i) (fst tt)) fh,
                              Predict (length (heap w))]) (split c y))"
proof -
  from assms(2) obtain a wa u wb scores where
    cl: "clone F (forecaster self) w = (Inr a, wa)"
    and sp: "set_params F a p wa = (Inr u, wb)"
    and ev: "evaluate F a y fh (cv self) (strategy self) (scoring self) wb = (Inr scores, w1)"
    by (auto simp: fit_params_def split: prod.splits sum.splits)
  have a: "a = length (heap w)" and lena: "length (heap wa) = Suc (length (heap w))"
    using clone_Inr [OF cl] by simp_all
  have ca: "calls wa = calls w @ [Clone (forecaster self) (length (heap w))]"
    using cl by (auto simp: clone_def split: sum.splits)
  have cb: "calls wb = calls wa @ [SetParams a p]" and lenb: "length (heap wb) = length (heap wa)"
    using sp by (auto simp: set_params_def split: sum.splits)
  have run: "evaluate_loop F a y fh (scoring self) 0 (split c y) (np_empty (get_n_splits c y)) wb
               = (Inr scores, w1)"
    using ev assms(1) by (simp add: evaluate_def)
  have c1: "calls w1 = calls wb @
              concat (map (\<lambda>tt. [Fit a (map (\<lambda>i. y ! i) (fst tt)) fh, Predict a]) (split c y))"
    using evaluate_loop_calls [OF run] .
  have len1: "length (heap w1) = length (heap wb)"
    using evaluate_loop_heap_length [of F a y fh "scoring self" 0 "split c y"
        "np_empty (get_n_splits c y)" wb] run by simp
  show ?thesis
    using a lena ca cb lenb c1 len1 by simp
qed

lemma fit_loop_calls:
  "cv self = Some c \<Longrightarrow> fit_loop F self y fh i ps res w = (Inr res', w') \<Longrightarrow>
     calls w' =
       calls w @
       concat (map (\<lambda>(a, p).
                 Clone (forecaster self) a # SetParams a p #
                 concat (map (\<lambda>tt. [Fit a (map (\<lambda>i. y ! i) (fst tt)) fh, Predict a])
                           (split c y)))
               (enumerate (length (heap w)) ps))"
proof (induction ps arbitrary: i res w)
  case Nil
  then show ?case by simp
next
  case (Cons p ps)
  from Cons.prems(2) obtain m w1 where
    step: "fit_params F self y fh p w = (Inr m, w1)"
    and rest: "fit_loop F self y fh (Suc i) ps (res[i := m]) w1 = (Inr res', w')"
    by (auto split: prod.splits sum.splits if_splits)
  show ?case
    using fit_params_calls [OF Cons.prems(1) step] Cons.IH [OF Cons.prems(1) rest]
    by simp
qed

lemma fit_count_append: "fit_count (xs @ ys) = fit_count xs + fit_count ys"
  by (simp add: fit_count_def)

lemma fit_count_windows:
  "fit_count (concat (map (\<lambda>tt. [Fit a (g tt) fh, Predict a]) ws)) = length ws"
  by (induction ws) (simp_all add: fit_count_def)

lemma fit_count_configs:
  "fit_count (concat (map (\<lambda>(a, p).
       Clone t a # SetParams a p # concat (map (\<lambda>tt. [Fit a (g tt) fh, Predict a]) ws))
     (enumerate n ps))) = length ps * length ws"
proof (induction ps arbitrary: n)
  case Nil
  show ?case by (simp add: fit_count_def)
next
  case (Cons p ps)
  show ?case
    using Cons.IH [of "Suc n"] fit_count_windows [of n g fh ws]
    by (simp add: fit_count_def)
qed

subsection \<open>Runs of the grid search\<close>

lemmas run_simps =
  fit_cv_results_def fit_params_def clone_def set_params_def evaluate_def evaluate_window_def
  fit_def predict_def iloc_def np_empty_def np_mean_def naive_def abs_error_def y5_def
  w_naive_def numeral_2_eq_2

lemma run_gs_tie:
  "fit_cv_results naive gs_tie y5 None w_naive
     = (Inr [Some (5 / 2), Some (5 / 2)],
        \<lparr>heap = [(0, None), (0, Some 4), (5, Some 4)],
           calls =
             [Clone 0 1, SetParams 1 0, Fit 1 [1, 2] None, Predict 1,
              Fit 1 [1, 2, 4] None, Predict 1,
              Clone 0 2, SetParams 2 5, Fit 2 [1, 2] None, Predict 2,
              Fit 2 [1, 2, 4] None, Predict 2]\<rparr>)"
  by (simp add: run_simps gs_tie_def cv_expanding_def)

lemma run_gs_twice:
  "fit_cv_results naive gs_twice y5 None w_naive
     = (Inr [Some (3 / 2), Some (3 / 2)],
        \<lparr>heap = [(0, None), (1, Some 4), (1, Some 4)],
           calls =
             [Clone 0 1, SetParams 1 1, Fit 1 [1, 2] None, Predict 1,
              Fit 1 [1, 2, 4] None, Predict 1,
              Clone 0 2, SetParams 2 1, Fit 2 [1, 2] None, Predict 2,
              Fit 2 [1, 2, 4] None, Predict 2]\<rparr>)"
  by (simp add: run_simps gs_twice_def cv_expanding_def)

lemma run_gs_same_train:
  "fit_cv_results naive gs_same_train y5 None w_naive
     = (Inr [Some (7 / 2)],
        \<lparr>heap = [(0, None), (0, Some 2)],
           calls =
             [Clone 0 1, SetParams 1 0, Fit 1 [1, 2] None, Predict 1,
              Fit 1 [1, 2] None, Predict 1]\<rparr>)"
  by (simp add: run_simps gs_same_train_def cv_same_train_def)

text \<open>
  The template after a run over the grid \<open>[1, 1]\<close>: the object at address 0 is as it was,
  and the method has returned \<^verbatim>\<open>self\<close>.
\<close>

theorem fit_keeps_template_witness:
  "forecaster gs_twice < length (heap w_naive) \<and>
   heap (snd (ForecastingGridSearchCV_fit naive gs_twice y5 None None w_naive)) ! 0 = (0, None) \<and>
   fst (ForecastingGridSearchCV_fit naive gs_twice y5 None None w_naive) = Inr gs_twice"
proof -
  have h: "forecaster gs_twice < length (heap w_naive)"
    by (simp add: gs_twice_def w_naive_def)
  have t: "forecaster gs_twice = 0" "heap w_naive ! 0 = (0, None)"
    by (simp_all add: gs_twice_def w_naive_def)
  have "heap (snd (ForecastingGridSearchCV_fit naive gs_twice y5 None None w_naive))
          ! forecaster gs_twice = heap w_naive ! forecaster gs_twice"
    using fit_keeps_template [OF h, of naive y5 None None] by blast
  then have kept: "heap (snd (ForecastingGridSearchCV_fit naive gs_twice y5 None None w_naive)) ! 0
                     = (0, None)"
    using t by simp
  have "fst (ForecastingGridSearchCV_fit naive gs_twice y5 None None w_naive) = Inr gs_twice"
    by (simp add: ForecastingGridSearchCV_fit_def run_gs_twice)
  then show ?thesis using h kept by blast
qed

subsection \<open>What the grid search records\<close>

text \<open>
  C7, as the code has it. When the loop of \<^verbatim>\<open>ForecastingGridSearchCV.fit\<close> completes, the
  local array \<^verbatim>\<open>cv_results\<close> has one cell per configuration of \<^verbatim>\<open>param_grid\<close>, and cell \<open>i\<close>
  holds the aggregate of the \<open>i\<close>-th configuration: the mean of the scores of a clone of the
  template, with that configuration applied, over the windows of \<^verbatim>\<open>self.cv\<close>. The calls are
  made configuration by configuration in the order of \<^verbatim>\<open>param_grid\<close>: \<^verbatim>\<open>clone\<close> of the
  template, \<^verbatim>\<open>set_params\<close> on the clone, then for every window of \<^verbatim>\<open>self.cv.split(y)\<close> a
  \<^verbatim>\<open>fit\<close> and a \<^verbatim>\<open>predict\<close> on the clone. \<^verbatim>\<open>evaluate\<close> is given \<^verbatim>\<open>self.cv\<close>, \<^verbatim>\<open>self.strategy\<close>
  and \<^verbatim>\<open>self.scoring\<close> and no cache; every window of every configuration is fitted.
\<close>

theorem fit_records_each_configuration:
  assumes "forecaster self < length (heap w)"
    and "fit_cv_results F self y fh w = (Inr cv_results, w')"
  shows "length cv_results = length (param_grid self) \<and>
         (\<forall>i. i < length (param_grid self) \<longrightarrow>
            config_score F y fh (cv self) (scoring self) (heap w ! forecaster self)
              (param_grid self ! i) = Inr (cv_results ! i)) \<and>
         (\<forall>c. cv self = Some c \<longrightarrow>
            calls w' =
              calls w @
              concat (map (\<lambda>(a, p).
                        Clone (forecaster self) a # SetParams a p #
                        concat (map (\<lambda>tt. [Fit a (map (\<lambda>i. y ! i) (fst tt)) fh, Predict a])
                                  (split c y)))
                      (enumerate (length (heap w)) (param_grid self))))"
proof (intro conjI allI impI)
  have run: "fit_loop F self y fh 0 (param_grid self) (np_empty (length (param_grid self))) w
               = (Inr cv_results, w')"
    using assms(2) by (simp add: fit_cv_results_def)
  note res = fit_loop_results [OF assms(1) run]
  show "length cv_results = length (param_grid self)"
    using res by (simp add: np_empty_def)
  {
    fix i
    assume "i < length (param_grid self)"
    then show "config_score F y fh (cv self) (scoring self) (heap w ! forecaster self)
                 (param_grid self ! i) = Inr (cv_results ! i)"
      using res by simp
  }
  {
    fix c
    assume "cv self = Some c"
    then show "calls w' =
        calls w @
        concat (map (\<lambda>(a, p).
                  Clone (forecaster self) a # SetParams a p #
                  concat (map (\<lambda>tt. [Fit a (map (\<lambda>i. y ! i) (fst tt)) fh, Predict a])
                            (split c y)))
                (enumerate (length (heap w)) (param_grid self)))"
      using fit_loop_calls [OF _ run] by simp
  }
qed

text \<open>
  C7 as the specification states it, with a cache of fits shared by the evaluations, does
  not hold: with the same configuration twice in \<^verbatim>\<open>param_grid\<close>, the second clone is fitted on the same two train windows again.
\<close>

theorem fit_repeats_fits_of_repeated_configuration:
  "param_grid gs_twice = [1, 1] \<and>
   calls (snd (ForecastingGridSearchCV_fit naive gs_twice y5 None None w_naive))
     = [Clone 0 1, SetParams 1 1, Fit 1 [1, 2] None, Predict 1,
        Fit 1 [1, 2, 4] None, Predict 1,
        Clone 0 2, SetParams 2 1, Fit 2 [1, 2] None, Predict 2,
        Fit 2 [1, 2, 4] None, Predict 2]"
  by (simp add: ForecastingGridSearchCV_fit_def run_gs_twice) (simp add: gs_twice_def)

text \<open>The grid \<open>[0, 5]\<close> over two expanding windows of \<open>y5\<close>.\<close>

theorem fit_records_each_configuration_witness:
  "forecaster gs_tie < length (heap w_naive) \<and>
   fst (fit_cv_results naive gs_tie y5 None w_naive) = Inr [Some (5 / 2), Some (5 / 2)] \<and>
   config_score naive y5 None (Some cv_expanding) (Some abs_error) (0, None) 0
     = Inr (Some (5 / 2)) \<and>
   config_score naive y5 None (Some cv_expanding) (Some abs_error) (0, None) 5
     = Inr (Some (5 / 2))"
proof -
  have h: "forecaster gs_tie < length (heap w_naive)"
    by (simp add: gs_tie_def w_naive_def)
  note facts = fit_records_each_configuration [OF h run_gs_tie]
  have each: "\<forall>i. i < length (param_grid gs_tie) \<longrightarrow>
            config_score naive y5 None (cv gs_tie) (scoring gs_tie)
              (heap w_naive ! forecaster gs_tie) (param_grid gs_tie ! i)
            = Inr ([Some (5 / 2), Some (5 / 2)] ! i)"
    using facts by blast
  have f: "cv gs_tie = Some cv_expanding" "scoring gs_tie = Some abs_error"
    "heap w_naive ! forecaster gs_tie = (0, None)" "length (param_grid gs_tie) = 2"
    "param_grid gs_tie ! 0 = 0" "param_grid gs_tie ! 1 = 5"
    by (simp_all add: gs_tie_def w_naive_def)
  have c0: "config_score naive y5 None (Some cv_expanding) (Some abs_error) (0, None) 0
              = Inr (Some (5 / 2))"
    using each [rule_format, of 0] f by simp
  have c1: "config_score naive y5 None (Some cv_expanding) (Some abs_error) (0, None) 5
              = Inr (Some (5 / 2))"
    using each [rule_format, of 1] f by simp
  show ?thesis using h c0 c1 by (simp add: run_gs_tie)
qed

subsection \<open>How often fit is executed\<close>

text \<open>
  C2, as the code has it. There is no cache of fits. In a run of
  \<^verbatim>\<open>ForecastingGridSearchCV.fit\<close> that returns, \<^verbatim>\<open>fit\<close> is executed once for every window of
  every configuration: the number of \<^verbatim>\<open>fit\<close> calls made is the length of \<^verbatim>\<open>param_grid\<close> times
  the number of pairs that \<^verbatim>\<open>self.cv.split(y)\<close> yields, whether or not train windows or
  configurations repeat.
\<close>

theorem fit_count_is_grid_times_windows:
  assumes "cv self = Some c"
    and "ForecastingGridSearchCV_fit F self y fh X w = (Inr r, w')"
  shows "fit_count (calls w') =
           fit_count (calls w) + length (param_grid self) * length (split c y)"
proof -
  from assms(2) obtain res where
    run: "fit_loop F self y fh 0 (param_grid self) (np_empty (length (param_grid self))) w
            = (Inr res, w')"
    by (auto simp: ForecastingGridSearchCV_fit_def fit_cv_results_def
             split: prod.splits sum.splits)
  show ?thesis
    using fit_loop_calls [OF assms(1) run]
    by (simp add: fit_count_append fit_count_configs)
qed

text \<open>
  C2 as the specification states it, that fit is computed once per distinct pair of train
  window and configuration, does not hold: with one configuration and two windows that share the train set \<open>[0, 1]\<close> there is
  one such pair, and \<^verbatim>\<open>fit\<close> is executed twice.
\<close>

theorem fit_executed_twice_for_one_pair:
  "card (set (map fst (split cv_same_train y5)) \<times> set (param_grid gs_same_train)) = 1 \<and>
   fit_count (calls (snd (ForecastingGridSearchCV_fit naive gs_same_train y5 None None w_naive)))
     = 2"
  by (simp add: ForecastingGridSearchCV_fit_def run_gs_same_train fit_count_def)
    (simp add: cv_same_train_def gs_same_train_def)

text \<open>The grid \<open>[0, 5]\<close> over two windows: four fits.\<close>

theorem fit_count_is_grid_times_windows_witness:
  "cv gs_tie = Some cv_expanding \<and>
   fst (ForecastingGridSearchCV_fit naive gs_tie y5 None None w_naive) = Inr gs_tie \<and>
   fit_count (calls (snd (ForecastingGridSearchCV_fit naive gs_tie y5 None None w_naive))) = 4"
proof -
  have c: "cv gs_tie = Some cv_expanding"
    by (simp add: gs_tie_def)
  obtain w' where run: "ForecastingGridSearchCV_fit naive gs_tie y5 None None w_naive
                          = (Inr gs_tie, w')"
    by (simp add: ForecastingGridSearchCV_fit_def run_gs_tie)
  have "fit_count (calls w') =
          fit_count (calls w_naive) + length (param_grid gs_tie) * length (split cv_expanding y5)"
    using fit_count_is_grid_times_windows [OF c run] .
  then have "fit_count (calls w') = 4"
    by (simp add: w_naive_def gs_tie_def cv_expanding_def fit_count_def)
  then show ?thesis using c run by simp
qed

subsection \<open>Selection\<close>

text \<open>
  C8, at a tie. The two configurations of the grid \<open>[0, 5]\<close> have the same aggregate score
  \<open>5 / 2\<close>. \<^verbatim>\<open>ForecastingGridSearchCV.fit\<close> computes both and returns \<^verbatim>\<open>self\<close> as it was: where
  the source has the comment \<^verbatim>\<open># select best params\<close> no statement follows, so no
  configuration is selected or returned, and \<^verbatim>\<open>cv_results\<close> is dropped.
\<close>

theorem fit_selects_nothing_at_tie:
  "fst (fit_cv_results naive gs_tie y5 None w_naive) = Inr [Some (5 / 2), Some (5 / 2)] \<and>
   fst (ForecastingGridSearchCV_fit naive gs_tie y5 None None w_naive) = Inr gs_tie"
  by (simp add: ForecastingGridSearchCV_fit_def run_gs_tie)

end
